theory Spec2Isabelle
  imports Complex_Main "HOL-Library.Log_Nat"
begin

section \<open>Time\<close>

text \<open>
  A \<open>datetime\<close> is a naive UTC instant, counted in microseconds (the resolution of
  Python's \<open>datetime\<close>). \<open>datetime.utcnow\<close> reads the wall clock: the clock is the
  sequence of its successive readings together with the number of readings taken so far.
\<close>

type_synonym datetime = int

record clock =
  readings :: "nat \<Rightarrow> datetime"
  reads :: nat

definition utcnow :: "clock \<Rightarrow> datetime \<times> clock" where
  "utcnow c = (readings c (reads c), c\<lparr>reads := Suc (reads c)\<rparr>)"

text \<open>
  A Python \<open>float\<close> is an IEEE double: a number \<open>n * 2 powi j\<close> with \<open>\<bar>n\<bar> < 2 ^ 53\<close>. It is
  modelled by the real it denotes, and an operation on floats by the exact operation
  followed by rounding to the nearest double, ties to the even one. (The exponent range of
  a double is not modelled; no value this program computes comes near its ends.)

  \<open>float_exponent x\<close> is the binary exponent of a positive \<open>x\<close>, the \<open>e\<close> with
  \<open>2 powi e \<le> x < 2 powi (e + 1)\<close>; \<open>round_pos\<close> rounds a positive number to 53 significant
  bits.
\<close>

definition float_exponent :: "real \<Rightarrow> int" where
  "float_exponent x = (if 1 \<le> x then bitlen \<lfloor>x\<rfloor> - 1 else - bitlen (\<lceil>1 / x\<rceil> - 1))"

definition round_half_even :: "real \<Rightarrow> int" where
  "round_half_even y =
     (let f = \<lfloor>y\<rfloor>; r = y - of_int f
      in if r < 1 / 2 then f else if 1 / 2 < r then f + 1 else if even f then f else f + 1)"

definition round_pos :: "real \<Rightarrow> real" where
  "round_pos x =
     (let u = 2 powi (float_exponent x - 52)
      in of_int (round_half_even (x / u)) * u)"

definition to_float :: "real \<Rightarrow> real" where
  "to_float x = (if x = 0 then 0 else if 0 < x then round_pos x else - round_pos (- x))"

text \<open>
  \<open>timedelta.total_seconds()\<close> divides the microseconds of the span, an integer, by
  \<open>10 ** 6\<close>; the quotient of two integers is the correctly rounded float. \<open>x / y\<close> on
  floats is the correctly rounded quotient. \<open>int(x)\<close> on a float truncates towards zero.
\<close>

definition total_seconds :: "int \<Rightarrow> real" where
  "total_seconds delta = to_float (real_of_int delta / 1000000)"

definition float_div :: "real \<Rightarrow> real \<Rightarrow> real" where
  "float_div x y = to_float (x / y)"

definition py_int :: "real \<Rightarrow> int" where
  "py_int x = (if 0 \<le> x then \<lfloor>x\<rfloor> else \<lceil>x\<rceil>)"

section \<open>The entities\<close>

text \<open>
  \<open>BaseModel\<close> carries the two timestamps every table inherits. A field typed
  \<open>Optional[T]\<close> is a \<open>T option\<close>. The foreign keys \<open>WorkoutSession.user_id\<close>,
  \<open>ExerciseLog.session_id\<close> and \<open>ExerciseLog.exercise_id\<close> are annotated \<open>int\<close>, but a
  table model is not validated on construction and \<open>create_workout_session\<close> passes
  \<open>Optional[int]\<close> attributes into them, so the objects hold an \<open>int option\<close> and the
  NOT NULL constraint of the column is checked when the row is inserted. The field
  \<open>notes\<close> is named \<open>notes_txt\<close> here (\<open>notes\<close> is reserved).
\<close>

record BaseModel =
  created_timestamp :: "datetime option"
  last_edited_timestamp :: "datetime option"

record User = BaseModel +
  user_id :: "int option"
  username :: string
  email :: string
  password_hash :: string
  first_name :: "string option"
  last_name :: "string option"

record WorkoutType = BaseModel +
  workout_type_id :: "int option"
  workout_name :: string
  muscle_group_targeted :: string
  category_type :: "string option"
  description :: "string option"
  difficulty_level :: "string option"

record Exercise = BaseModel +
  exercise_id :: "int option"
  workout_type_id :: "int option"
  exercise_name :: string
  description :: "string option"
  equipment_required :: "string option"
  primary_muscle_group :: "string option"
  difficulty_level :: "string option"
  calories_burned_per_minute :: "real option"
  muscle_groups_secondary :: "string option"
  video_tutorial_link :: "string option"
  image_url :: "string option"

record WorkoutSession = BaseModel +
  session_id :: "int option"
  user_id :: "int option"
  workout_date :: datetime
  start_time :: "datetime option"
  end_time :: "datetime option"
  total_duration :: "int option"
  location :: "string option"
  perceived_exertion :: "int option"
  notes_txt :: "string option"
  workout_source :: "string option"

record ExerciseLog = BaseModel +
  exercise_log_id :: "int option"
  session_id :: "int option"
  exercise_id :: "int option"
  set_number :: "int option"
  repetitions :: "int option"
  weight :: "real option"
  duration :: "int option"
  rest_time :: "int option"
  notes_txt :: "string option"
  difficulty_level :: "string option"

text \<open>
  Constructing any entity without passing the timestamps (no call in the repository
  passes them) runs the two default factories in field order: first
  \<open>created_timestamp\<close>, then \<open>last_edited_timestamp\<close>. The remaining fields are the
  argument \<open>rest\<close>. The field declarations are read at their documented meaning: the
  column that \<open>BaseModel\<close> declares once for \<open>last_edited_timestamp\<close> is taken as a column
  of each of the five tables.
\<close>

definition BaseModel_init :: "'a \<Rightarrow> clock \<Rightarrow> 'a BaseModel_scheme \<times> clock" where
  "BaseModel_init rest c =
     (let (t1, c1) = utcnow c;
          (t2, c2) = utcnow c1
      in (\<lparr>created_timestamp = Some t1, last_edited_timestamp = Some t2, \<dots> = rest\<rparr>, c2))"

text \<open>The column's \<open>onupdate=datetime.utcnow\<close>: every UPDATE of a row that does not
  itself assign \<open>last_edited_timestamp\<close> refreshes it.\<close>

definition onupdate :: "'a BaseModel_scheme \<Rightarrow> clock \<Rightarrow> 'a BaseModel_scheme \<times> clock" where
  "onupdate r c = (let (t, c1) = utcnow c in (r\<lparr>last_edited_timestamp := Some t\<rparr>, c1))"

text \<open>The later life of a row: a sequence of UPDATEs, each one after some number of other
  readings of the clock (the list gives these numbers).\<close>

fun updates :: "nat list \<Rightarrow> 'a BaseModel_scheme \<Rightarrow> clock \<Rightarrow> 'a BaseModel_scheme \<times> clock" where
  "updates [] r c = (r, c)"
| "updates (gap # gaps) r c =
     (let (r1, c1) = onupdate r (c\<lparr>reads := reads c + gap\<rparr>) in updates gaps r1 c1)"

text \<open>
  \<open>from_dict(cls, data)\<close> is \<open>cls(**data)\<close>. A timestamp that \<open>data\<close> names is taken as
  given, \<open>None\<close> included: both fields are \<open>Optional\<close>. One that \<open>data\<close> does not name comes
  from the default factory of its field, \<open>created_timestamp\<close> first. The entity's own
  fields are \<open>rest\<close>. With neither timestamp named this is the plain constructor call.
\<close>

definition from_dict ::
  "(string \<rightharpoonup> datetime option) \<Rightarrow> 'a \<Rightarrow> clock \<Rightarrow> 'a BaseModel_scheme \<times> clock" where
  "from_dict data rest c =
     (let (t1, c1) = (case data ''created_timestamp'' of
                        None \<Rightarrow> (let (t, c') = utcnow c in (Some t, c'))
                      | Some v \<Rightarrow> (v, c));
          (t2, c2) = (case data ''last_edited_timestamp'' of
                        None \<Rightarrow> (let (t, c') = utcnow c1 in (Some t, c'))
                      | Some v \<Rightarrow> (v, c1))
      in (\<lparr>created_timestamp = t1, last_edited_timestamp = t2, \<dots> = rest\<rparr>, c2))"

section \<open>Storage\<close>

text \<open>
  The five tables, each a list of rows in the order the engine returns them. The
  \<open>engine\<close> handed to the functions is not created in the repository, so what depends
  on it is a parameter: whether it enforces FOREIGN KEY constraints, and at which statement
  of the transaction (counted from 0), if any, the connection fails. The errors are the
  ones the calls of the source can raise: the engine's \<open>IntegrityError\<close> and
  \<open>OperationalError\<close>, and Python's \<open>TypeError\<close>.
\<close>

datatype error = IntegrityError | OperationalError | TypeError

record engine =
  enforce_fk :: bool
  fault_at :: "nat option"

record db =
  tbl_user :: "User list"
  tbl_workouttype :: "WorkoutType list"
  tbl_exercise :: "Exercise list"
  tbl_workoutsession :: "WorkoutSession list"
  tbl_exerciselog :: "ExerciseLog list"

text \<open>A transaction works on its own copy of the tables and counts its statements.\<close>

record tx =
  work :: db
  issued :: nat

definition begin_tx :: "db \<Rightarrow> tx" where
  "begin_tx d = \<lparr>work = d, issued = 0\<rparr>"

text \<open>
  The keys present in a table; the surrogate key given to a row inserted without one (one
  more than the largest key present); the check of a foreign key, which a null reference
  passes and which only an enforcing engine makes.
\<close>

definition keys :: "('r \<Rightarrow> int option) \<Rightarrow> 'r list \<Rightarrow> int list" where
  "keys pk rows = List.map_filter pk rows"

definition next_id :: "int list \<Rightarrow> int" where
  "next_id ids = fold max ids 0 + 1"

definition assign_pk :: "int option \<Rightarrow> int list \<Rightarrow> error + int" where
  "assign_pk pk ids =
     (case pk of
        None \<Rightarrow> Inr (next_id ids)
      | Some k \<Rightarrow> if k \<in> set ids then Inl IntegrityError else Inr k)"

definition fk_ok :: "engine \<Rightarrow> int option \<Rightarrow> int list \<Rightarrow> bool" where
  "fk_ok eng ref ids =
     (case ref of None \<Rightarrow> True | Some k \<Rightarrow> \<not> enforce_fk eng \<or> k \<in> set ids)"

text \<open>Whether the connection fails at the next statement; the transaction after a
  statement that left the tables \<open>d\<close>.\<close>

definition faulty :: "engine \<Rightarrow> tx \<Rightarrow> bool" where
  "faulty eng t = (fault_at eng = Some (issued t))"

definition step :: "tx \<Rightarrow> db \<Rightarrow> tx" where
  "step t d = \<lparr>work = d, issued = Suc (issued t)\<rparr>"

text \<open>\<open>session.query(Exercise).limit(n).all()\<close>\<close>

definition select_Exercise_limit :: "engine \<Rightarrow> nat \<Rightarrow> tx \<Rightarrow> error + (Exercise list \<times> tx)" where
  "select_Exercise_limit eng n t =
     (if faulty eng t then Inl OperationalError
      else Inr (take n (tbl_exercise (work t)), step t (work t)))"

text \<open>
  INSERT of one row. \<open>Exercise.workout_type_id\<close> is \<open>Optional[int]\<close>, a nullable
  column; the columns annotated \<open>int\<close> are NOT NULL. No table declares a CHECK constraint.
\<close>

definition insert_Exercise :: "engine \<Rightarrow> Exercise \<Rightarrow> tx \<Rightarrow> error + (Exercise \<times> tx)" where
  "insert_Exercise eng e t =
     (let d = work t in
      if faulty eng t then Inl OperationalError
      else if \<not> fk_ok eng (Exercise.workout_type_id e)
                 (keys WorkoutType.workout_type_id (tbl_workouttype d))
        then Inl IntegrityError
      else case assign_pk (Exercise.exercise_id e) (keys Exercise.exercise_id (tbl_exercise d)) of
             Inl err \<Rightarrow> Inl err
           | Inr k \<Rightarrow>
               let e1 = e\<lparr>Exercise.exercise_id := Some k\<rparr>
               in Inr (e1, step t (d\<lparr>tbl_exercise := tbl_exercise d @ [e1]\<rparr>)))"

definition insert_WorkoutSession ::
  "engine \<Rightarrow> WorkoutSession \<Rightarrow> tx \<Rightarrow> error + (WorkoutSession \<times> tx)" where
  "insert_WorkoutSession eng s t =
     (let d = work t in
      if faulty eng t then Inl OperationalError
      else if WorkoutSession.user_id s = None then Inl IntegrityError
      else if \<not> fk_ok eng (WorkoutSession.user_id s) (keys User.user_id (tbl_user d))
        then Inl IntegrityError
      else case assign_pk (WorkoutSession.session_id s)
                  (keys WorkoutSession.session_id (tbl_workoutsession d)) of
             Inl err \<Rightarrow> Inl err
           | Inr k \<Rightarrow>
               let s1 = s\<lparr>WorkoutSession.session_id := Some k\<rparr>
               in Inr (s1, step t (d\<lparr>tbl_workoutsession := tbl_workoutsession d @ [s1]\<rparr>)))"

definition insert_ExerciseLog :: "engine \<Rightarrow> ExerciseLog \<Rightarrow> tx \<Rightarrow> error + (ExerciseLog \<times> tx)" where
  "insert_ExerciseLog eng l t =
     (let d = work t in
      if faulty eng t then Inl OperationalError
      else if ExerciseLog.session_id l = None \<or> ExerciseLog.exercise_id l = None
        then Inl IntegrityError
      else if \<not> fk_ok eng (ExerciseLog.session_id l)
                 (keys WorkoutSession.session_id (tbl_workoutsession d))
            \<or> \<not> fk_ok eng (ExerciseLog.exercise_id l) (keys Exercise.exercise_id (tbl_exercise d))
        then Inl IntegrityError
      else case assign_pk (exercise_log_id l) (keys exercise_log_id (tbl_exerciselog d)) of
             Inl err \<Rightarrow> Inl err
           | Inr k \<Rightarrow>
               let l1 = l\<lparr>exercise_log_id := Some k\<rparr>
               in Inr (l1, step t (d\<lparr>tbl_exerciselog := tbl_exerciselog d @ [l1]\<rparr>)))"

fun insert_ExerciseLogs :: "engine \<Rightarrow> ExerciseLog list \<Rightarrow> tx \<Rightarrow> error + tx" where
  "insert_ExerciseLogs eng [] t = Inr t"
| "insert_ExerciseLogs eng (l # ls) t =
     (case insert_ExerciseLog eng l t of
        Inl err \<Rightarrow> Inl err
      | Inr (l1, t1) \<Rightarrow> insert_ExerciseLogs eng ls t1)"

text \<open>UPDATE of a session row already inserted, found by its primary key.\<close>

definition update_WorkoutSession ::
  "engine \<Rightarrow> WorkoutSession \<Rightarrow> tx \<Rightarrow> clock \<Rightarrow> (error + tx) \<times> clock" where
  "update_WorkoutSession eng s t c =
     (if faulty eng t then (Inl OperationalError, c)
      else
        let (s1, c1) = onupdate s c;
            d = work t
        in (Inr (step t (d\<lparr>tbl_workoutsession :=
                   map (\<lambda>r. if WorkoutSession.session_id r = WorkoutSession.session_id s
                             then s1 else r) (tbl_workoutsession d)\<rparr>)), c1))"

text \<open>
  \<open>session.commit()\<close>: the pending changes are flushed (the changed session row, then the
  staged logs), then the transaction is committed and its tables become the stored ones.
  Any error leaves the stored tables as they were: the transaction is rolled back when
  the \<open>with\<close> block is left.
\<close>

definition Session_commit ::
  "engine \<Rightarrow> WorkoutSession \<Rightarrow> ExerciseLog list \<Rightarrow> tx \<Rightarrow> clock \<Rightarrow> (error + db) \<times> clock" where
  "Session_commit eng s logs t c =
     (case update_WorkoutSession eng s t c of
        (Inl err, c1) \<Rightarrow> (Inl err, c1)
      | (Inr t1, c1) \<Rightarrow>
          (case insert_ExerciseLogs eng logs t1 of
             Inl err \<Rightarrow> (Inl err, c1)
           | Inr t2 \<Rightarrow>
               if faulty eng t2 then (Inl OperationalError, c1) else (Inr (work t2), c1)))"

section \<open>create_workout_session\<close>

text \<open>
  What a call can change or show: the stored tables, the clock and what was printed. A call
  either returns (Python's \<open>None\<close>, in both of its normal paths) or raises.
\<close>

record world =
  store :: db
  clk :: clock
  stdout :: "string list"

datatype outcome = Returned | Raised error

text \<open>The construction \<open>ExerciseLog(session_id=..., exercise_id=..., set_number=set_num, ...)\<close>
  of the inner loop, and the two nested iterations: \<open>range(1, 4)\<close> for each selected exercise. The
  objects are only staged (\<open>session.add\<close>); they reach the tables at the commit.\<close>

definition new_ExerciseLog :: "int option \<Rightarrow> Exercise \<Rightarrow> int \<Rightarrow> clock \<Rightarrow> ExerciseLog \<times> clock" where
  "new_ExerciseLog sid exercise set_num c =
     BaseModel_init
       (ExerciseLog.fields None sid (Exercise.exercise_id exercise) (Some set_num)
          (Some (if set_num < 3 then 10 else 8))
          (Some (if primary_muscle_group exercise
                      \<in> set [Some ''Chest'', Some ''Back'', Some ''Legs'']
                 then 50 else 25))
          None (Some 60) None (Some ''Medium''))
       c"

fun sets_loop :: "int option \<Rightarrow> Exercise \<Rightarrow> int list \<Rightarrow> clock \<Rightarrow> ExerciseLog list \<times> clock" where
  "sets_loop sid exercise [] c = ([], c)"
| "sets_loop sid exercise (set_num # ns) c =
     (let (l, c1) = new_ExerciseLog sid exercise set_num c;
          (ls, c2) = sets_loop sid exercise ns c1
      in (l # ls, c2))"

fun exercises_loop ::
  "int option \<Rightarrow> Exercise list \<Rightarrow> clock \<Rightarrow> ExerciseLog list \<times> clock" where
  "exercises_loop sid [] c = ([], c)"
| "exercises_loop sid (exercise # exs) c =
     (let (ls, c1) = sets_loop sid exercise [1, 2, 3] c;
          (rest, c2) = exercises_loop sid exs c1
      in (ls @ rest, c2))"

text \<open>The construction \<open>WorkoutSession(user_id=..., workout_date=utcnow(), start_time=utcnow(),
  location=..., perceived_exertion=7, notes=...)\<close>: the two arguments are evaluated first, then
  the default factories run.\<close>

definition new_WorkoutSession :: "int \<Rightarrow> clock \<Rightarrow> WorkoutSession \<times> clock" where
  "new_WorkoutSession uid c =
     (let (t_date, c1) = utcnow c;
          (t_start, c2) = utcnow c1
      in BaseModel_init
           (WorkoutSession.fields None (Some uid) t_date (Some t_start) None None
              (Some ''Home Gym'') (Some 7) (Some ''Felt strong today'') None)
           c2)"

text \<open>Setting \<open>end_time\<close> and \<open>total_duration\<close>; subtracting an unset \<open>start_time\<close> is a
  \<open>TypeError\<close>.\<close>

definition set_end_time :: "WorkoutSession \<Rightarrow> clock \<Rightarrow> (error + WorkoutSession) \<times> clock" where
  "set_end_time s c =
     (let (t_end, c1) = utcnow c in
      case start_time s of
        None \<Rightarrow> (Inl TypeError, c1)
      | Some t0 \<Rightarrow>
          (Inr (s\<lparr>end_time := Some t_end,
                  total_duration := Some (py_int (float_div (total_seconds (t_end - t0)) 60))\<rparr>), c1))"

definition create_workout_session :: "engine \<Rightarrow> int \<Rightarrow> world \<Rightarrow> outcome \<times> world" where
  "create_workout_session eng uid w =
     (case select_Exercise_limit eng 3 (begin_tx (store w)) of
        Inl err \<Rightarrow> (Raised err, w)
      | Inr (exercises, t1) \<Rightarrow>
          if exercises = [] then
            (Returned,
             w\<lparr>stdout := stdout w @ [''No exercises found. Please add exercises first.'']\<rparr>)
          else
            let (workout_session, c1) = new_WorkoutSession uid (clk w)
            in case insert_WorkoutSession eng workout_session t1 of
                 Inl err \<Rightarrow> (Raised err, w\<lparr>clk := c1\<rparr>)
               | Inr (flushed, t2) \<Rightarrow>
                   let (logs, c2) =
                         exercises_loop (WorkoutSession.session_id flushed) exercises c1
                   in case set_end_time flushed c2 of
                        (Inl err, c3) \<Rightarrow> (Raised err, w\<lparr>clk := c3\<rparr>)
                      | (Inr finished, c3) \<Rightarrow>
                          (case Session_commit eng finished logs t2 c3 of
                             (Inl err, c4) \<Rightarrow> (Raised err, w\<lparr>clk := c4\<rparr>)
                           | (Inr d, c4) \<Rightarrow> (Returned, w\<lparr>store := d, clk := c4\<rparr>)))"

section \<open>Notions used in the statements\<close>

text \<open>The order on timestamps; an unset timestamp is not ordered with anything.\<close>

fun ts_le :: "datetime option \<Rightarrow> datetime option \<Rightarrow> bool" where
  "ts_le (Some a) (Some b) = (a \<le> b)"
| "ts_le _ _ = False"

text \<open>A clock that advances seven seconds between two readings.\<close>

definition clock0 :: clock where
  "clock0 = \<lparr>readings = (\<lambda>n. 7000000 * int n), reads = 0\<rparr>"

text \<open>The weight a log gets for an exercise, and the fields of a log row that a call
  chooses (everything but its key and its timestamps).\<close>

definition weight_for :: "Exercise \<Rightarrow> real" where
  "weight_for e =
     (if primary_muscle_group e \<in> {Some ''Chest'', Some ''Back'', Some ''Legs''} then 50 else 25)"

definition log_fields ::
  "ExerciseLog \<Rightarrow> int option \<times> int option \<times> int option \<times> int option \<times> real option \<times> int option \<times> string option" where
  "log_fields l =
     (ExerciseLog.session_id l, ExerciseLog.exercise_id l, set_number l, repetitions l,
      weight l, rest_time l, ExerciseLog.difficulty_level l)"

definition planned :: "int option \<Rightarrow> Exercise \<Rightarrow> int \<Rightarrow>
    int option \<times> int option \<times> int option \<times> int option \<times> real option \<times> int option \<times> string option" where
  "planned sid e n =
     (sid, Exercise.exercise_id e, Some n, Some (if n < 3 then 10 else 8),
      Some (weight_for e), Some 60, Some ''Medium'')"

text \<open>The session row a call stores, given the key the engine assigned, the clock at the
  start of the call and the number of exercises selected.\<close>

definition session_row :: "int \<Rightarrow> int \<Rightarrow> clock \<Rightarrow> nat \<Rightarrow> WorkoutSession" where
  "session_row k uid c n =
     \<lparr>created_timestamp = Some (readings c (reads c + 2)),
      last_edited_timestamp = Some (readings c (reads c + 5 + 6 * n)),
      WorkoutSession.session_id = Some k,
      user_id = Some uid,
      workout_date = readings c (reads c),
      start_time = Some (readings c (reads c + 1)),
      end_time = Some (readings c (reads c + 4 + 6 * n)),
      total_duration =
        Some (py_int (float_div (total_seconds (readings c (reads c + 4 + 6 * n)
                                                  - readings c (reads c + 1))) 60)),
      location = Some ''Home Gym'',
      perceived_exertion = Some 7,
      notes_txt = Some ''Felt strong today'',
      workout_source = None\<rparr>"

text \<open>A small store for examples: one user, four exercises, no session yet; the same
  store without exercises; an engine that enforces foreign keys and never fails.\<close>

definition user0 :: "int \<Rightarrow> User" where
  "user0 k = \<lparr>created_timestamp = Some 0, last_edited_timestamp = Some 0,
     User.user_id = Some k, username = ''ann'', email = ''ann@example.org'',
     password_hash = ''x'', first_name = None, last_name = None\<rparr>"

definition exercise0 :: "int \<Rightarrow> string option \<Rightarrow> Exercise" where
  "exercise0 k g = \<lparr>created_timestamp = Some 0, last_edited_timestamp = Some 0,
     Exercise.exercise_id = Some k, workout_type_id = None, exercise_name = ''e'',
     description = None, equipment_required = None, primary_muscle_group = g,
     difficulty_level = None, calories_burned_per_minute = None,
     muscle_groups_secondary = None, video_tutorial_link = None, image_url = None\<rparr>"

definition db0 :: db where
  "db0 = \<lparr>tbl_user = [user0 1], tbl_workouttype = [],
     tbl_exercise = [exercise0 1 (Some ''Legs''), exercise0 2 (Some ''Biceps''),
                     exercise0 3 None, exercise0 4 (Some ''Back'')],
     tbl_workoutsession = [], tbl_exerciselog = []\<rparr>"

definition world0 :: world where
  "world0 = \<lparr>store = db0, clk = clock0, stdout = []\<rparr>"

definition world1 :: world where
  "world1 = \<lparr>store = db0\<lparr>tbl_exercise := []\<rparr>, clk = clock0, stdout = []\<rparr>"

definition engine0 :: engine where
  "engine0 = \<lparr>enforce_fk = True, fault_at = None\<rparr>"

text \<open>An engine that does not enforce foreign keys; a new exercise row for a given workout
  type; the example store with one session; a log object for a given session and set number.\<close>

definition engine_nofk :: engine where
  "engine_nofk = \<lparr>enforce_fk = False, fault_at = None\<rparr>"

definition new_exercise :: "int option \<Rightarrow> Exercise" where
  "new_exercise wt = \<lparr>created_timestamp = Some 0, last_edited_timestamp = Some 0,
     Exercise.exercise_id = None, workout_type_id = wt, exercise_name = ''Squat'',
     description = None, equipment_required = None, primary_muscle_group = Some ''Legs'',
     difficulty_level = None, calories_burned_per_minute = None,
     muscle_groups_secondary = None, video_tutorial_link = None, image_url = None\<rparr>"

definition db2 :: db where
  "db2 = db0\<lparr>tbl_workoutsession := [session_row 1 1 clock0 3]\<rparr>"

definition log0 :: "int \<Rightarrow> int \<Rightarrow> ExerciseLog" where
  "log0 sid n = fst (new_ExerciseLog (Some sid) (exercise0 1 (Some ''Legs'')) n clock0)"

text \<open>A wall clock that is set back by five minutes after its second reading; the example
  store with that clock.\<close>

definition clock_back :: clock where
  "clock_back =
     \<lparr>readings = (\<lambda>n. if n < 2 then 300000000 + 7000000 * int n else 7000000 * int n),
      reads = 0\<rparr>"

definition world_back :: world where
  "world_back = \<lparr>store = db0, clk = clock_back, stdout = []\<rparr>"

text \<open>The three fields of a session row that the duration relates.\<close>

definition session_times :: "WorkoutSession \<Rightarrow> datetime option \<times> datetime option \<times> int option" where
  "session_times s = (start_time s, end_time s, total_duration s)"

section \<open>Rounding to a double\<close>

lemma pow2_le_real: "(2::int) ^ k \<le> n \<Longrightarrow> (2::real) ^ k \<le> of_int n"
proof -
  assume "(2::int) ^ k \<le> n"
  then have "real_of_int (2 ^ k) \<le> real_of_int n" by (simp only: of_int_le_iff)
  then show ?thesis by simp
qed

lemma succ_le_pow2_real: "(n::int) + 1 \<le> 2 ^ k \<Longrightarrow> of_int n + 1 \<le> (2::real) ^ k"
proof -
  assume "n + 1 \<le> 2 ^ k"
  then have "real_of_int (n + 1) \<le> real_of_int (2 ^ k)" by (simp only: of_int_le_iff)
  then show ?thesis by simp
qed

lemma float_exponent_bounds:
  assumes "0 < x"
  shows "2 powi float_exponent x \<le> x" and "x < 2 powi (float_exponent x + 1)"
proof -
  show "2 powi float_exponent x \<le> x"
  proof (cases "1 \<le> x")
    case True
    define n where "n = \<lfloor>x\<rfloor>"
    have n: "0 < n" using True by (simp add: n_def)
    from bitlen_bounds [OF n] have "2 ^ nat (bitlen n - 1) \<le> n" by simp
    then have "(2::real) ^ nat (bitlen n - 1) \<le> of_int n"
      by (rule pow2_le_real)
    also have "\<dots> \<le> x" by (simp add: n_def)
    finally have "(2::real) ^ nat (bitlen n - 1) \<le> x" .
    moreover have "1 \<le> bitlen n" using n by (simp add: bitlen_alt_def)
    ultimately show ?thesis
      using True by (simp add: float_exponent_def n_def [symmetric] power_int_def)
  next
    case False
    define n where "n = \<lceil>1 / x\<rceil> - 1"
    have t: "1 < 1 / x" using False assms by simp
    have n: "0 < n" using t by (simp add: n_def less_ceiling_iff)
    have "1 / x \<le> of_int n + 1" by (simp add: n_def)
    also from bitlen_bounds [OF n] have "n + 1 \<le> 2 ^ nat (bitlen n)" by simp
    then have "of_int n + 1 \<le> (2::real) ^ nat (bitlen n)"
      by (rule succ_le_pow2_real)
    finally have "1 / x \<le> 2 ^ nat (bitlen n)" .
    then have "1 / 2 ^ nat (bitlen n) \<le> x"
      using assms by (simp add: field_simps)
    moreover have "1 \<le> bitlen n" using n by (simp add: bitlen_alt_def)
    ultimately show ?thesis
      using False by (simp add: float_exponent_def n_def [symmetric] power_int_def field_simps)
  qed
  show "x < 2 powi (float_exponent x + 1)"
  proof (cases "1 \<le> x")
    case True
    define n where "n = \<lfloor>x\<rfloor>"
    have n: "0 < n" using True by (simp add: n_def)
    have "x < of_int n + 1" by (simp add: n_def)
    also from bitlen_bounds [OF n] have "n + 1 \<le> 2 ^ nat (bitlen n)" by simp
    then have "of_int n + 1 \<le> (2::real) ^ nat (bitlen n)"
      by (rule succ_le_pow2_real)
    finally have "x < 2 ^ nat (bitlen n)" .
    moreover have "0 \<le> bitlen n" by (rule bitlen_nonneg)
    ultimately show ?thesis
      using True by (simp add: float_exponent_def n_def [symmetric] power_int_def)
  next
    case False
    define n where "n = \<lceil>1 / x\<rceil> - 1"
    have t: "1 < 1 / x" using False assms by simp
    have n: "0 < n" using t by (simp add: n_def less_ceiling_iff)
    define b where "b = bitlen n"
    have b: "1 \<le> b" using n by (simp add: b_def bitlen_alt_def)
    from bitlen_bounds [OF n] have "2 ^ nat (b - 1) \<le> n" by (simp add: b_def)
    then have "(2::real) ^ nat (b - 1) \<le> of_int n"
      by (rule pow2_le_real)
    also have "of_int n < 1 / x" unfolding n_def by linarith
    finally have "2 ^ nat (b - 1) < 1 / x" .
    then have lt: "x < 1 / 2 ^ nat (b - 1)"
      using assms by (simp add: field_simps)
    have "float_exponent x + 1 = - (b - 1)"
      using False by (simp add: float_exponent_def n_def [symmetric] b_def)
    moreover have "(2::real) powi (- (b - 1)) = 1 / 2 ^ nat (b - 1)"
      using b by (simp add: power_int_def field_simps)
    ultimately show ?thesis using lt by simp
  qed
qed

lemma round_half_even_bounds:
  "\<lfloor>y\<rfloor> \<le> round_half_even y" "round_half_even y \<le> \<lceil>y\<rceil>"
proof -
  show "\<lfloor>y\<rfloor> \<le> round_half_even y"
    by (simp add: round_half_even_def Let_def)
  have "\<lceil>y\<rceil> = \<lfloor>y\<rfloor> + 1" if "y - of_int \<lfloor>y\<rfloor> \<noteq> 0"
    using that by (simp add: ceiling_altdef)
  then show "round_half_even y \<le> \<lceil>y\<rceil>"
    by (auto simp: round_half_even_def Let_def)
qed

text \<open>The scaled value of a positive number lies in the top binade.\<close>

lemma scaled_bounds:
  assumes "0 < x"
  defines "u \<equiv> 2 powi (float_exponent x - 52)"
  shows "0 < u" and "2 ^ 52 \<le> x / u" and "x / u < 2 ^ 53"
    and "2 ^ 52 * u = 2 powi float_exponent x"
    and "2 ^ 53 * u = 2 powi (float_exponent x + 1)"
proof -
  let ?e = "float_exponent x"
  show u: "0 < u" by (simp add: u_def)
  have "(2::real) powi (52 + (?e - 52)) = 2 powi 52 * 2 powi (?e - 52)"
    by (rule power_int_add) simp
  then show a: "2 ^ 52 * u = 2 powi ?e" by (simp add: u_def)
  have "(2::real) powi (53 + (?e - 52)) = 2 powi 53 * 2 powi (?e - 52)"
    by (rule power_int_add) simp
  moreover have "53 + (?e - 52) = ?e + 1" by simp
  ultimately show b: "2 ^ 53 * u = 2 powi (?e + 1)" by (simp add: u_def)
  from float_exponent_bounds(1) [OF assms(1)] a have "2 ^ 52 * u \<le> x" by simp
  then show "2 ^ 52 \<le> x / u" using u by (simp add: field_simps)
  from float_exponent_bounds(2) [OF assms(1)] b have "x < 2 ^ 53 * u" by simp
  then show "x / u < 2 ^ 53" using u by (simp add: field_simps)
qed

lemma round_pos_bounds:
  assumes "0 < x"
  shows "2 powi float_exponent x \<le> round_pos x"
    and "round_pos x \<le> 2 powi (float_exponent x + 1)"
proof -
  define u where "u = (2::real) powi (float_exponent x - 52)"
  define m where "m = round_half_even (x / u)"
  note sb = scaled_bounds [OF assms, folded u_def]
  have rp: "round_pos x = of_int m * u"
    by (simp add: round_pos_def Let_def u_def m_def)
  have "(2::int) ^ 52 \<le> \<lfloor>x / u\<rfloor>" using sb(2) by (simp add: le_floor_iff)
  also have "\<dots> \<le> m" unfolding m_def by (rule round_half_even_bounds)
  finally have "(2::real) ^ 52 \<le> of_int m" by (rule pow2_le_real)
  then have "2 ^ 52 * u \<le> of_int m * u" using sb(1) by (simp only: mult_le_cancel_right_pos)
  then show "2 powi float_exponent x \<le> round_pos x" by (simp only: rp sb(4))
  have "m \<le> \<lceil>x / u\<rceil>" unfolding m_def by (rule round_half_even_bounds)
  also have "\<dots> \<le> 2 ^ 53" using sb(3) by (simp add: ceiling_le_iff)
  finally have "real_of_int m \<le> real_of_int (2 ^ 53)" by (simp only: of_int_le_iff)
  then have "real_of_int m \<le> 2 ^ 53" by simp
  then have "of_int m * u \<le> 2 ^ 53 * u" using sb(1) by (simp only: mult_le_cancel_right_pos)
  then show "round_pos x \<le> 2 powi (float_exponent x + 1)" by (simp only: rp sb(5))
qed

text \<open>Inside the binade of \<open>x\<close>, every number \<open>n * 2 powi j\<close> with \<open>n\<close> below \<open>2 ^ 53\<close> is a
  multiple of the unit in the last place.\<close>

lemma on_grid:
  assumes "0 < x" and "n < 2 ^ 53" and "2 powi float_exponent x \<le> real_of_int n * 2 powi j"
  shows "\<exists>N. real_of_int n * 2 powi j = real_of_int N * 2 powi (float_exponent x - 52)"
proof -
  let ?e = "float_exponent x"
  have "0 < (2::real) powi ?e" by simp
  with assms(3) have pos: "0 < of_int n * (2::real) powi j" by linarith
  have pj: "0 < (2::real) powi j" by simp
  from zero_less_mult_pos2 [OF pos pj] have n: "0 < n" by simp
  have "real_of_int n < real_of_int (2 ^ 53)" using assms(2) by (simp only: of_int_less_iff)
  then have "of_int n * (2::real) powi j < 2 ^ 53 * 2 powi j" by simp
  also have "\<dots> = 2 powi (53 + j)"
    by (subst power_int_add) simp_all
  finally have "(2::real) powi ?e < 2 powi (53 + j)" using assms(3) by simp
  then have "?e < 53 + j"
    by (rule contrapos_pp) (simp add: not_less power_int_increasing)
  then have k: "0 \<le> j - (?e - 52)" by simp
  have "(2::real) powi j = 2 powi ((j - (?e - 52)) + (?e - 52))" by simp
  also have "\<dots> = 2 powi (j - (?e - 52)) * 2 powi (?e - 52)"
    by (rule power_int_add) simp
  also have "(2::real) powi (j - (?e - 52)) = 2 ^ nat (j - (?e - 52))"
    using k by (simp add: power_int_def)
  finally have "of_int n * (2::real) powi j
      = of_int (n * 2 ^ nat (j - (?e - 52))) * 2 powi (?e - 52)"
    by simp
  then show ?thesis by blast
qed

lemma round_pos_le:
  assumes "0 < x" and "n < 2 ^ 53" and "x \<le> of_int n * 2 powi j"
  shows "round_pos x \<le> of_int n * 2 powi j"
proof (cases "2 powi (float_exponent x + 1) \<le> real_of_int n * 2 powi j")
  case True
  with round_pos_bounds(2) [OF assms(1)] show ?thesis by simp
next
  case False
  define u where "u = (2::real) powi (float_exponent x - 52)"
  note sb = scaled_bounds [OF assms(1), folded u_def]
  have "2 powi float_exponent x \<le> real_of_int n * 2 powi j"
    using float_exponent_bounds(1) [OF assms(1)] assms(3) by simp
  from on_grid [OF assms(1,2) this] obtain N where
    N: "real_of_int n * 2 powi j = real_of_int N * u" unfolding u_def by blast
  have "x / u \<le> of_int N" using assms(3) sb(1) by (simp add: N field_simps)
  then have "\<lceil>x / u\<rceil> \<le> N" by (simp add: ceiling_le_iff)
  with round_half_even_bounds(2) [of "x / u"] have "round_half_even (x / u) \<le> N" by simp
  then have "real_of_int (round_half_even (x / u)) \<le> of_int N" by (simp only: of_int_le_iff)
  then have "of_int (round_half_even (x / u)) * u \<le> of_int N * u" using sb(1) by simp
  then show ?thesis by (simp add: round_pos_def Let_def u_def [symmetric] N)
qed

lemma le_round_pos:
  assumes "0 < x" and "n < 2 ^ 53" and "of_int n * 2 powi j \<le> x"
  shows "of_int n * 2 powi j \<le> round_pos x"
proof (cases "2 powi float_exponent x \<le> real_of_int n * 2 powi j")
  case False
  with round_pos_bounds(1) [OF assms(1)] show ?thesis by simp
next
  case True
  define u where "u = (2::real) powi (float_exponent x - 52)"
  note sb = scaled_bounds [OF assms(1), folded u_def]
  from on_grid [OF assms(1,2) True] obtain N where
    N: "real_of_int n * 2 powi j = real_of_int N * u" unfolding u_def by blast
  have "of_int N \<le> x / u" using assms(3) sb(1) by (simp add: N field_simps)
  then have "N \<le> \<lfloor>x / u\<rfloor>" by (simp add: le_floor_iff)
  with round_half_even_bounds(1) [of "x / u"] have "N \<le> round_half_even (x / u)" by simp
  then have "real_of_int N \<le> of_int (round_half_even (x / u))" by (simp only: of_int_le_iff)
  then have "of_int N * u \<le> of_int (round_half_even (x / u)) * u" using sb(1) by simp
  then show ?thesis by (simp add: round_pos_def Let_def u_def [symmetric] N)
qed

lemma round_pos_positive: "0 < x \<Longrightarrow> 0 < round_pos x"
  using round_pos_bounds(1) [of x] by (rule_tac less_le_trans [of _ "2 powi float_exponent x"]) simp_all

text \<open>Rounding never steps over a number that a double holds.\<close>

lemma to_float_le:
  assumes "\<bar>n\<bar> < 2 ^ 53" and "x \<le> of_int n * 2 powi j"
  shows "to_float x \<le> of_int n * 2 powi j"
proof -
  consider "x = 0" | "0 < x" | "x < 0" by linarith
  then show ?thesis
  proof cases
    case 1
    with assms(2) show ?thesis by (simp add: to_float_def)
  next
    case 2
    from assms(1) have "n < 2 ^ 53" by simp
    from round_pos_le [OF 2 this assms(2)] 2 show ?thesis by (simp add: to_float_def)
  next
    case 3
    then have p: "0 < - x" by simp
    from assms(1) have lt: "- n < 2 ^ 53" by simp
    from assms(2) have "of_int (- n) * 2 powi j \<le> - x" by simp
    from le_round_pos [OF p lt this] have "- round_pos (- x) \<le> of_int n * 2 powi j" by simp
    with 3 show ?thesis by (simp add: to_float_def)
  qed
qed

lemma le_to_float:
  assumes "\<bar>n\<bar> < 2 ^ 53" and "of_int n * 2 powi j \<le> x"
  shows "of_int n * 2 powi j \<le> to_float x"
proof -
  consider "x = 0" | "0 < x" | "x < 0" by linarith
  then show ?thesis
  proof cases
    case 1
    with assms(2) show ?thesis by (simp add: to_float_def)
  next
    case 2
    from assms(1) have "n < 2 ^ 53" by simp
    from le_round_pos [OF 2 this assms(2)] 2 show ?thesis by (simp add: to_float_def)
  next
    case 3
    then have p: "0 < - x" by simp
    from assms(1) have lt: "- n < 2 ^ 53" by simp
    from assms(2) have "- x \<le> of_int (- n) * 2 powi j" by simp
    from round_pos_le [OF p lt this] have "of_int n * 2 powi j \<le> - round_pos (- x)" by simp
    with 3 show ?thesis by (simp add: to_float_def)
  qed
qed

lemma to_float_exact:
  "\<bar>n\<bar> < 2 ^ 53 \<Longrightarrow> to_float (of_int n * 2 powi j) = of_int n * 2 powi j"
  by (intro antisym to_float_le le_to_float) simp_all

lemma to_float_nonneg: "0 \<le> x \<Longrightarrow> 0 \<le> to_float x"
  using le_to_float [of 0 0 x] by simp

lemma to_float_nonpos: "x \<le> 0 \<Longrightarrow> to_float x \<le> 0"
  using to_float_le [of 0 x 0] by simp

lemma to_float_of_int: "\<bar>n\<bar> < 2 ^ 53 \<Longrightarrow> to_float (of_int n) = of_int n"
  using to_float_exact [of n 0] by simp

lemma le_to_float_int:
  "\<bar>n\<bar> < 9007199254740992 \<Longrightarrow> real_of_int n \<le> x \<Longrightarrow> real_of_int n \<le> to_float x"
  using le_to_float [of n 0 x] by simp

lemma to_float_le_dyadic:
  assumes "\<bar>n\<bar> < 9007199254740992" and "x \<le> real_of_int n / 2 ^ k"
  shows "to_float x \<le> real_of_int n / 2 ^ k"
proof -
  have "(2::real) powi (- int k) = 1 / 2 ^ k"
    by (simp add: power_int_def field_simps)
  then have eq: "real_of_int n * 2 powi (- int k) = real_of_int n / 2 ^ k" by simp
  from assms(1) have "\<bar>n\<bar> < 2 ^ 53" by simp
  from to_float_le [OF this, of x "- int k"] assms(2) show ?thesis
    by (simp only: eq)
qed

lemma minutes_int_facts:
  assumes "0 \<le> (d::int)" and "d < 8053063680000000"
  defines "q \<equiv> d div 60000000"
  shows "0 \<le> q" and "q < 134217728" and "q * 60000000 \<le> d" and "d + 1 \<le> (q + 1) * 60000000"
proof -
  have split: "d = q * 60000000 + d mod 60000000" by (simp add: q_def)
  have m: "0 \<le> d mod 60000000" "d mod 60000000 < 60000000" by simp_all
  from split m show "q * 60000000 \<le> d" by linarith
  from split m have "d + 1 \<le> q * 60000000 + 60000000" by linarith
  then show "d + 1 \<le> (q + 1) * 60000000" by (simp add: algebra_simps)
  from split m assms(1) show "0 \<le> q" by linarith
  from split m assms(2) show "q < 134217728" by linarith
qed

lemma minutes_real_lower:
  assumes "q * 60000000 \<le> (d::int)"
  shows "real_of_int (60 * q) \<le> real_of_int d / 1000000"
proof -
  from assms have "real_of_int (q * 60000000) \<le> real_of_int d" by (simp only: of_int_le_iff)
  then have "real_of_int q * 60000000 \<le> real_of_int d" by simp
  then show ?thesis by simp
qed

lemma minutes_real_upper:
  assumes "(d::int) + 1 \<le> (q + 1) * 60000000"
  shows "real_of_int d / 1000000 \<le> real_of_int (62914560 * (q + 1) - 1) / 2 ^ 20"
proof -
  from assms have "d * 1048576 \<le> (62914560 * (q + 1) - 1) * 1000000"
    by (simp add: algebra_simps)
  then have "real_of_int (d * 1048576) \<le> real_of_int ((62914560 * (q + 1) - 1) * 1000000)"
    by (simp only: of_int_le_iff)
  then have "real_of_int d * 1048576 \<le> real_of_int (62914560 * (q + 1) - 1) * 1000000"
    by (simp only: of_int_mult of_int_numeral)
  then have "real_of_int d / 1000000 \<le> real_of_int (62914560 * (q + 1) - 1) / 1048576"
    by (simp only: frac_le_eq) simp
  then show ?thesis by simp
qed

lemma minutes_real_upper2:
  assumes "x \<le> real_of_int (62914560 * (q + 1) - 1) / 2 ^ 20"
  shows "x / 60 \<le> real_of_int (67108864 * (q + 1) - 1) / 2 ^ 26"
proof -
  have "real_of_int (62914560 * (q + 1) - 1) / 2 ^ 20 / 60
          \<le> real_of_int (67108864 * (q + 1) - 1) / 2 ^ 26"
    by (simp add: field_simps)
  moreover from assms have "x / 60 \<le> real_of_int (62914560 * (q + 1) - 1) / 2 ^ 20 / 60"
    by (simp only: divide_le_cancel) simp
  ultimately show ?thesis by (rule order_trans [rotated])
qed

lemma whole_minutes_float:
  assumes "0 \<le> d" and "d < 8053063680000000"
  shows "py_int (float_div (total_seconds d) 60) = d div 60000000"
proof -
  define q where "q = d div 60000000"
  define x1 where "x1 = total_seconds d"
  define x2 where "x2 = float_div x1 60"
  note f = minutes_int_facts [OF assms, folded q_def]
  have x1: "x1 = to_float (real_of_int d / 1000000)"
    by (simp add: x1_def total_seconds_def)
  have x2: "x2 = to_float (x1 / 60)"
    by (simp add: x2_def float_div_def)
  have "\<bar>60 * q\<bar> < 9007199254740992" using f(1,2) by linarith
  from le_to_float_int [OF this minutes_real_lower [OF f(3)]]
  have a1: "real_of_int (60 * q) \<le> x1" by (simp only: x1)
  then have "real_of_int q \<le> x1 / 60" by simp
  moreover have "\<bar>q\<bar> < 9007199254740992" using f(1,2) by linarith
  ultimately have a2: "real_of_int q \<le> x2"
    unfolding x2 by (rule le_to_float_int [rotated])
  have "\<bar>62914560 * (q + 1) - 1\<bar> < 9007199254740992"
    using f(1,2) by (simp add: abs_less_iff algebra_simps)
  from to_float_le_dyadic [OF this minutes_real_upper [OF f(4)]]
  have b1: "x1 \<le> real_of_int (62914560 * (q + 1) - 1) / 2 ^ 20" by (simp only: x1)
  have "\<bar>67108864 * (q + 1) - 1\<bar> < 9007199254740992"
    using f(1,2) by (simp add: abs_less_iff algebra_simps)
  from to_float_le_dyadic [OF this minutes_real_upper2 [OF b1]]
  have "x2 \<le> real_of_int (67108864 * (q + 1) - 1) / 2 ^ 26" by (simp only: x2)
  also have "\<dots> < real_of_int q + 1" by (simp add: field_simps)
  finally have b2: "x2 < real_of_int q + 1" .
  from a2 b2 have "\<lfloor>x2\<rfloor> = q" by (simp add: floor_unique)
  moreover have "0 \<le> x2" using a2 f(1) by simp
  ultimately have "py_int x2 = q" by (simp add: py_int_def)
  then show ?thesis by (simp only: x2_def x1_def q_def)
qed

lemma float_quotient_sign:
  "0 \<le> d \<Longrightarrow> 0 \<le> float_div (total_seconds d) 60"
  "d \<le> 0 \<Longrightarrow> float_div (total_seconds d) 60 \<le> 0"
  by (simp_all add: float_div_def total_seconds_def to_float_nonneg to_float_nonpos)

text \<open>
  Three values of the duration as the program computes it. A span of \<open>-153\<close> seconds gives
  \<open>-2\<close>, not the floor \<open>-3\<close>. A span of 17999999999999999 microseconds gives 300000000,
  one more than its whole number of minutes, 299999999: \<open>total_seconds\<close> rounds the span up
  to 18000000000 seconds.
\<close>

lemma float_minutes_examples:
  "py_int (float_div (total_seconds (- 153000000)) 60) = - 2"
  "\<lfloor>float_div (total_seconds (- 153000000)) 60\<rfloor> = - 3"
  "py_int (float_div (total_seconds 17999999999999999) 60) = 300000000"
  by code_simp+

section \<open>Auxiliary facts\<close>

lemma fold_max_ge: "(a::int) \<le> fold max xs a"
  by (induction xs arbitrary: a) (auto intro: order_trans [OF max.cobounded2])

lemma fold_max_mem: "x \<in> set xs \<Longrightarrow> (x::int) \<le> fold max xs a"
proof (induction xs arbitrary: a)
  case Nil
  then show ?case by simp
next
  case (Cons y ys)
  show ?case
  proof (cases "x = y")
    case True
    have "y \<le> max y a" by simp
    also have "\<dots> \<le> fold max ys (max y a)" by (rule fold_max_ge)
    finally show ?thesis using True by simp
  next
    case False
    with Cons show ?thesis by simp
  qed
qed

lemma next_id_fresh: "next_id ids \<notin> set ids"
proof
  assume "next_id ids \<in> set ids"
  then have "next_id ids \<le> fold max ids 0" by (rule fold_max_mem)
  then show False by (simp add: next_id_def)
qed

lemma keys_iff: "k \<in> set (keys pk rows) \<longleftrightarrow> (\<exists>r\<in>set rows. pk r = Some k)"
  by (induction rows) (auto simp: keys_def List.map_filter_simps split: option.splits)

lemma keys_append: "keys pk (xs @ ys) = keys pk xs @ keys pk ys"
  by (simp add: keys_def List.map_filter_def)

lemma BaseModel_init_eq:
  "BaseModel_init rest c =
     (\<lparr>created_timestamp = Some (readings c (reads c)),
       last_edited_timestamp = Some (readings c (Suc (reads c))), \<dots> = rest\<rparr>,
      c\<lparr>reads := reads c + 2\<rparr>)"
  by (simp add: BaseModel_init_def utcnow_def)

lemma onupdate_eq:
  "onupdate r c = (r\<lparr>last_edited_timestamp := Some (readings c (reads c))\<rparr>, c\<lparr>reads := Suc (reads c)\<rparr>)"
  by (simp add: onupdate_def utcnow_def)

lemma new_ExerciseLog_fields:
  "ExerciseLog.session_id (fst (new_ExerciseLog sid e n c)) = sid"
  "ExerciseLog.exercise_id (fst (new_ExerciseLog sid e n c)) = Exercise.exercise_id e"
  "exercise_log_id (fst (new_ExerciseLog sid e n c)) = None"
  "set_number (fst (new_ExerciseLog sid e n c)) = Some n"
  "repetitions (fst (new_ExerciseLog sid e n c)) = Some (if n < 3 then 10 else 8)"
  "weight (fst (new_ExerciseLog sid e n c)) =
     Some (if primary_muscle_group e \<in> {Some ''Chest'', Some ''Back'', Some ''Legs''} then 50 else 25)"
  "rest_time (fst (new_ExerciseLog sid e n c)) = Some 60"
  "ExerciseLog.difficulty_level (fst (new_ExerciseLog sid e n c)) = Some ''Medium''"
  "duration (fst (new_ExerciseLog sid e n c)) = None"
  "ExerciseLog.notes_txt (fst (new_ExerciseLog sid e n c)) = None"
  "created_timestamp (fst (new_ExerciseLog sid e n c)) = Some (readings c (reads c))"
  "last_edited_timestamp (fst (new_ExerciseLog sid e n c)) = Some (readings c (Suc (reads c)))"
  "snd (new_ExerciseLog sid e n c) = c\<lparr>reads := reads c + 2\<rparr>"
  by (simp_all add: new_ExerciseLog_def BaseModel_init_eq ExerciseLog.defs)

lemma faulty_None [simp]: "fault_at eng = None \<Longrightarrow> \<not> faulty eng t"
  by (simp add: faulty_def)

lemma work_step [simp]: "work (step t d) = d"
  by (simp add: step_def)

lemma select_Inr:
  "select_Exercise_limit eng n t = Inr (exs, t1) \<Longrightarrow>
     exs = take n (tbl_exercise (work t)) \<and> work t1 = work t"
  by (auto simp: select_Exercise_limit_def split: if_splits)

lemma assign_pk_Inr: "assign_pk pk ids = Inr k \<Longrightarrow> k \<notin> set ids"
  by (auto simp: assign_pk_def next_id_fresh split: option.splits if_splits)

lemma insert_WorkoutSession_Inr:
  assumes "insert_WorkoutSession eng s t = Inr (s1, t1)"
  shows "\<exists>k. s1 = s\<lparr>WorkoutSession.session_id := Some k\<rparr>
           \<and> k \<notin> set (keys WorkoutSession.session_id (tbl_workoutsession (work t)))
           \<and> work t1 = (work t)\<lparr>tbl_workoutsession := tbl_workoutsession (work t) @ [s1]\<rparr>"
  using assms
  by (auto simp: insert_WorkoutSession_def Let_def dest: assign_pk_Inr
           split: if_splits sum.splits)

lemma insert_ExerciseLog_Inr:
  assumes "insert_ExerciseLog eng l t = Inr (l1, t1)"
  shows "(\<exists>k. l1 = l\<lparr>exercise_log_id := Some k\<rparr>)
           \<and> work t1 = (work t)\<lparr>tbl_exerciselog := tbl_exerciselog (work t) @ [l1]\<rparr>"
  using assms
  by (auto simp: insert_ExerciseLog_def Let_def split: if_splits sum.splits)

lemma insert_ExerciseLogs_Inr:
  "insert_ExerciseLogs eng ls t = Inr t1 \<Longrightarrow>
     \<exists>ls1. work t1 = (work t)\<lparr>tbl_exerciselog := tbl_exerciselog (work t) @ ls1\<rparr>
          \<and> list_all2 (\<lambda>l l1. \<exists>k. l1 = l\<lparr>exercise_log_id := Some k\<rparr>) ls ls1"
proof (induction ls arbitrary: t)
  case Nil
  then show ?case by simp
next
  case (Cons l ls)
  from Cons.prems obtain l1 t2 where
    one: "insert_ExerciseLog eng l t = Inr (l1, t2)" and
    rest: "insert_ExerciseLogs eng ls t2 = Inr t1"
    by (auto split: sum.splits)
  from insert_ExerciseLog_Inr [OF one] obtain k where
    l1: "l1 = l\<lparr>exercise_log_id := Some k\<rparr>" and
    w2: "work t2 = (work t)\<lparr>tbl_exerciselog := tbl_exerciselog (work t) @ [l1]\<rparr>"
    by blast
  from Cons.IH [OF rest] obtain ls1 where
    w1: "work t1 = (work t2)\<lparr>tbl_exerciselog := tbl_exerciselog (work t2) @ ls1\<rparr>" and
    rel: "list_all2 (\<lambda>l l1. \<exists>k. l1 = l\<lparr>exercise_log_id := Some k\<rparr>) ls ls1"
    by blast
  have "work t1 = (work t)\<lparr>tbl_exerciselog := tbl_exerciselog (work t) @ (l1 # ls1)\<rparr>"
    using w1 w2 by simp
  moreover have "list_all2 (\<lambda>l l1. \<exists>k. l1 = l\<lparr>exercise_log_id := Some k\<rparr>) (l # ls) (l1 # ls1)"
    using rel l1 by auto
  ultimately show ?case by blast
qed

lemma stored_log_fields:
  "list_all2 (\<lambda>l l1. \<exists>k. l1 = l\<lparr>exercise_log_id := Some k\<rparr>) ls ls1 \<Longrightarrow>
     map log_fields ls1 = map log_fields ls"
  by (induction rule: list_all2_induct) (auto simp: log_fields_def)

lemma stored_exercise_ids:
  "list_all2 (\<lambda>l l1. \<exists>k. l1 = l\<lparr>exercise_log_id := Some k\<rparr>) ls ls1 \<Longrightarrow>
     \<forall>l\<in>set ls. ExerciseLog.exercise_id l \<noteq> None \<Longrightarrow>
     \<forall>l\<in>set ls1. ExerciseLog.exercise_id l \<noteq> None"
  by (induction rule: list_all2_induct) auto

lemma insert_ExerciseLog_notnull:
  "insert_ExerciseLog eng l t = Inr (l1, t1) \<Longrightarrow> ExerciseLog.exercise_id l \<noteq> None"
  by (auto simp: insert_ExerciseLog_def Let_def split: if_splits)

lemma insert_ExerciseLogs_notnull:
  "insert_ExerciseLogs eng ls t = Inr t1 \<Longrightarrow> \<forall>l\<in>set ls. ExerciseLog.exercise_id l \<noteq> None"
proof (induction ls arbitrary: t)
  case Nil
  show ?case by simp
next
  case (Cons l ls)
  from Cons.prems obtain l1 t2 where
    one: "insert_ExerciseLog eng l t = Inr (l1, t2)" and
    rest: "insert_ExerciseLogs eng ls t2 = Inr t1"
    by (auto split: sum.splits)
  from insert_ExerciseLog_notnull [OF one] Cons.IH [OF rest] show ?case by simp
qed

lemma new_log_fields: "log_fields (fst (new_ExerciseLog sid e n c)) = planned sid e n"
  by (simp add: log_fields_def planned_def weight_for_def new_ExerciseLog_fields)

lemma sets_loop_fields:
  "map log_fields (fst (sets_loop sid e ns c)) = map (planned sid e) ns"
  by (induction ns arbitrary: c) (simp_all add: split_beta new_log_fields)

lemma sets_loop_clock:
  "snd (sets_loop sid e ns c) = c\<lparr>reads := reads c + 2 * length ns\<rparr>"
  by (induction ns arbitrary: c) (simp_all add: split_beta new_ExerciseLog_fields)

lemma sets_loop_unkeyed:
  "l \<in> set (fst (sets_loop sid e ns c)) \<Longrightarrow> exercise_log_id l = None"
  by (induction ns arbitrary: c) (auto simp: split_beta new_ExerciseLog_fields)

lemma exercises_loop_fields:
  "map log_fields (fst (exercises_loop sid exs c)) =
     concat (map (\<lambda>e. map (planned sid e) [1, 2, 3]) exs)"
  by (induction exs arbitrary: c) (simp_all add: split_beta sets_loop_fields del: sets_loop.simps)

lemma exercises_loop_clock:
  "snd (exercises_loop sid exs c) = c\<lparr>reads := reads c + 6 * length exs\<rparr>"
  by (induction exs arbitrary: c) (simp_all add: split_beta sets_loop_clock del: sets_loop.simps)

lemma exercises_loop_unkeyed:
  "l \<in> set (fst (exercises_loop sid exs c)) \<Longrightarrow> exercise_log_id l = None"
  by (induction exs arbitrary: c) (auto simp: split_beta simp del: sets_loop.simps dest: sets_loop_unkeyed)

lemma sets_loop_stamps:
  "l \<in> set (fst (sets_loop sid e ns c)) \<Longrightarrow>
     \<exists>m. m + 1 < 2 * length ns
       \<and> created_timestamp l = Some (readings c (reads c + m))
       \<and> last_edited_timestamp l = Some (readings c (reads c + m + 1))"
proof (induction ns arbitrary: c)
  case Nil
  then show ?case by simp
next
  case (Cons n ns)
  define c1 where "c1 = c\<lparr>reads := reads c + 2\<rparr>"
  from Cons.prems have "l = fst (new_ExerciseLog sid e n c) \<or> l \<in> set (fst (sets_loop sid e ns c1))"
    by (simp add: split_beta new_ExerciseLog_fields c1_def)
  then show ?case
  proof
    assume "l = fst (new_ExerciseLog sid e n c)"
    then show ?thesis
      by (intro exI [of _ 0]) (simp add: new_ExerciseLog_fields)
  next
    assume "l \<in> set (fst (sets_loop sid e ns c1))"
    from Cons.IH [OF this] obtain m where
      m: "m + 1 < 2 * length ns"
         "created_timestamp l = Some (readings c1 (reads c1 + m))"
         "last_edited_timestamp l = Some (readings c1 (reads c1 + m + 1))"
      by blast
    then show ?thesis
      by (intro exI [of _ "m + 2"]) (simp add: c1_def add_ac)
  qed
qed

lemma exercises_loop_stamps:
  "l \<in> set (fst (exercises_loop sid exs c)) \<Longrightarrow>
     \<exists>m. m + 1 < 6 * length exs
       \<and> created_timestamp l = Some (readings c (reads c + m))
       \<and> last_edited_timestamp l = Some (readings c (reads c + m + 1))"
proof (induction exs arbitrary: c)
  case Nil
  then show ?case by simp
next
  case (Cons e exs)
  define c1 where "c1 = c\<lparr>reads := reads c + 6\<rparr>"
  have c1: "snd (sets_loop sid e [1, 2, 3] c) = c1"
    by (simp add: sets_loop_clock c1_def del: sets_loop.simps)
  from Cons.prems have "l \<in> set (fst (sets_loop sid e [1, 2, 3] c))
      \<or> l \<in> set (fst (exercises_loop sid exs c1))"
    by (simp add: split_beta c1 del: sets_loop.simps)
  then show ?case
  proof
    assume "l \<in> set (fst (sets_loop sid e [1, 2, 3] c))"
    from sets_loop_stamps [OF this] obtain m where
      "m + 1 < 2 * length [1, 2, 3 :: int]"
      "created_timestamp l = Some (readings c (reads c + m))"
      "last_edited_timestamp l = Some (readings c (reads c + m + 1))"
      by blast
    then show ?thesis
      by (intro exI [of _ m]) simp
  next
    assume "l \<in> set (fst (exercises_loop sid exs c1))"
    from Cons.IH [OF this] obtain m where
      m: "m + 1 < 6 * length exs"
         "created_timestamp l = Some (readings c1 (reads c1 + m))"
         "last_edited_timestamp l = Some (readings c1 (reads c1 + m + 1))"
      by blast
    then show ?thesis
      by (intro exI [of _ "m + 6"]) (simp add: c1_def add_ac)
  qed
qed

lemma stored_stamps:
  "list_all2 (\<lambda>l l1. \<exists>k. l1 = l\<lparr>exercise_log_id := Some k\<rparr>) ls ls1 \<Longrightarrow> l1 \<in> set ls1 \<Longrightarrow>
     \<exists>l\<in>set ls. created_timestamp l1 = created_timestamp l
              \<and> last_edited_timestamp l1 = last_edited_timestamp l"
  by (induction rule: list_all2_induct) auto

lemma update_WorkoutSession_Inr:
  assumes "update_WorkoutSession eng s t c = (Inr t1, c1)"
  shows "work t1 = (work t)\<lparr>tbl_workoutsession :=
            map (\<lambda>r. if WorkoutSession.session_id r = WorkoutSession.session_id s
                      then s\<lparr>last_edited_timestamp := Some (readings c (reads c))\<rparr> else r)
              (tbl_workoutsession (work t))\<rparr>"
  using assms
  by (auto simp: update_WorkoutSession_def onupdate_eq Let_def split: if_splits)

lemma Session_commit_Inr:
  assumes "Session_commit eng s ls t c = (Inr d, c1)"
  shows "\<exists>ls1. d = (work t)\<lparr>tbl_workoutsession :=
                     map (\<lambda>r. if WorkoutSession.session_id r = WorkoutSession.session_id s
                               then s\<lparr>last_edited_timestamp := Some (readings c (reads c))\<rparr> else r)
                       (tbl_workoutsession (work t)),
                   tbl_exerciselog := tbl_exerciselog (work t) @ ls1\<rparr>
             \<and> list_all2 (\<lambda>l l1. \<exists>k. l1 = l\<lparr>exercise_log_id := Some k\<rparr>) ls ls1
             \<and> (\<forall>l\<in>set ls1. ExerciseLog.exercise_id l \<noteq> None)"
proof -
  from assms obtain t1 t2 where
    u: "update_WorkoutSession eng s t c = (Inr t1, c1)" and
    i: "insert_ExerciseLogs eng ls t1 = Inr t2" and
    d: "d = work t2"
    by (auto simp: Session_commit_def split: prod.splits sum.splits if_splits)
  from insert_ExerciseLogs_Inr [OF i] obtain ls1 where
    w2: "work t2 = (work t1)\<lparr>tbl_exerciselog := tbl_exerciselog (work t1) @ ls1\<rparr>" and
    rel: "list_all2 (\<lambda>l l1. \<exists>k. l1 = l\<lparr>exercise_log_id := Some k\<rparr>) ls ls1"
    by blast
  note nn = stored_exercise_ids [OF rel insert_ExerciseLogs_notnull [OF i]]
  from update_WorkoutSession_Inr [OF u] w2 d rel nn show ?thesis
    by (intro exI [of _ ls1]) simp
qed

lemma replace_fresh:
  assumes "k \<notin> set (keys WorkoutSession.session_id rows)"
    and "WorkoutSession.session_id s = Some k"
  shows "map (\<lambda>r. if WorkoutSession.session_id r = Some k then s1 else r) (rows @ [s]) = rows @ [s1]"
proof -
  have "\<forall>r\<in>set rows. WorkoutSession.session_id r \<noteq> Some k"
    using assms(1) by (auto simp: keys_iff)
  then have "map (\<lambda>r. if WorkoutSession.session_id r = Some k then s1 else r) rows = rows"
    by (induction rows) auto
  then show ?thesis using assms(2) by simp
qed

lemma new_WorkoutSession_eq:
  "new_WorkoutSession uid c =
     (\<lparr>created_timestamp = Some (readings c (reads c + 2)),
       last_edited_timestamp = Some (readings c (reads c + 3)),
       WorkoutSession.session_id = None, user_id = Some uid,
       workout_date = readings c (reads c),
       start_time = Some (readings c (reads c + 1)),
       end_time = None, total_duration = None,
       location = Some ''Home Gym'', perceived_exertion = Some 7,
       notes_txt = Some ''Felt strong today'', workout_source = None\<rparr>,
      c\<lparr>reads := reads c + 4\<rparr>)"
  by (simp add: new_WorkoutSession_def BaseModel_init_eq utcnow_def WorkoutSession.defs
        eval_nat_numeral)

lemma set_end_time_eq:
  "start_time s = Some t0 \<Longrightarrow>
     set_end_time s c =
       (Inr (s\<lparr>end_time := Some (readings c (reads c)),
               total_duration :=
                 Some (py_int (float_div (total_seconds (readings c (reads c) - t0)) 60))\<rparr>),
        c\<lparr>reads := Suc (reads c)\<rparr>)"
  by (simp add: set_end_time_def utcnow_def)

text \<open>The run of a call, stage by stage.\<close>

lemma cws_select_fault:
  "faulty eng (begin_tx (store w)) \<Longrightarrow>
     create_workout_session eng uid w = (Raised OperationalError, w)"
  by (simp add: create_workout_session_def select_Exercise_limit_def)

lemma cws_empty:
  "\<not> faulty eng (begin_tx (store w)) \<Longrightarrow> tbl_exercise (store w) = [] \<Longrightarrow>
     create_workout_session eng uid w =
       (Returned, w\<lparr>stdout := stdout w @ [''No exercises found. Please add exercises first.'']\<rparr>)"
  by (simp add: create_workout_session_def select_Exercise_limit_def begin_tx_def)

lemma cws_flush_fails:
  assumes "\<not> faulty eng (begin_tx (store w))" and "tbl_exercise (store w) \<noteq> []"
    and "insert_WorkoutSession eng (fst (new_WorkoutSession uid (clk w)))
           (step (begin_tx (store w)) (store w)) = Inl err"
  shows "create_workout_session eng uid w =
           (Raised err, w\<lparr>clk := snd (new_WorkoutSession uid (clk w))\<rparr>)"
  using assms
  by (simp add: create_workout_session_def select_Exercise_limit_def begin_tx_def split_def)

lemma cws_flushed:
  assumes "\<not> faulty eng (begin_tx (store w))" and "tbl_exercise (store w) \<noteq> []"
    and "insert_WorkoutSession eng (fst (new_WorkoutSession uid (clk w)))
           (step (begin_tx (store w)) (store w)) = Inr (flushed, t2)"
    and "lp = exercises_loop (WorkoutSession.session_id flushed)
                (take 3 (tbl_exercise (store w))) (snd (new_WorkoutSession uid (clk w)))"
    and "set_end_time flushed (snd lp) = (Inr finished, c3)"
  shows "create_workout_session eng uid w =
           (case Session_commit eng finished (fst lp) t2 c3 of
              (Inl err, c4) \<Rightarrow> (Raised err, w\<lparr>clk := c4\<rparr>)
            | (Inr d, c4) \<Rightarrow> (Returned, w\<lparr>store := d, clk := c4\<rparr>))"
  using assms(1,2,3) assms(5) [unfolded assms(4)] unfolding assms(4)
  by (simp add: create_workout_session_def select_Exercise_limit_def begin_tx_def split_def Let_def)

lemma keys_replace:
  "WorkoutSession.session_id s1 = q \<Longrightarrow>
     keys WorkoutSession.session_id
       (map (\<lambda>r. if WorkoutSession.session_id r = q then s1 else r) rows)
     = keys WorkoutSession.session_id rows"
  by (induction rows) (auto simp: keys_def List.map_filter_simps split: option.splits)

lemma insert_ExerciseLog_ok:
  assumes "fault_at eng = None" and "exercise_log_id l = None"
    and "ExerciseLog.session_id l = Some a"
    and "a \<in> set (keys WorkoutSession.session_id (tbl_workoutsession (work t)))"
    and "ExerciseLog.exercise_id l = Some b"
    and "b \<in> set (keys Exercise.exercise_id (tbl_exercise (work t)))"
  shows "\<exists>l1 t1. insert_ExerciseLog eng l t = Inr (l1, t1)
           \<and> tbl_workoutsession (work t1) = tbl_workoutsession (work t)
           \<and> tbl_exercise (work t1) = tbl_exercise (work t)"
  using assms by (simp add: insert_ExerciseLog_def Let_def fk_ok_def assign_pk_def)

lemma insert_ExerciseLogs_ok:
  assumes "fault_at eng = None"
    and "\<forall>l\<in>set ls. exercise_log_id l = None
           \<and> (\<exists>a. ExerciseLog.session_id l = Some a
                 \<and> a \<in> set (keys WorkoutSession.session_id (tbl_workoutsession (work t))))
           \<and> (\<exists>b. ExerciseLog.exercise_id l = Some b
                 \<and> b \<in> set (keys Exercise.exercise_id (tbl_exercise (work t))))"
  shows "\<exists>t1. insert_ExerciseLogs eng ls t = Inr t1"
  using assms(2)
proof (induction ls arbitrary: t)
  case Nil
  show ?case by simp
next
  case (Cons l ls)
  from Cons.prems obtain a b where
    "exercise_log_id l = None" "ExerciseLog.session_id l = Some a"
    "a \<in> set (keys WorkoutSession.session_id (tbl_workoutsession (work t)))"
    "ExerciseLog.exercise_id l = Some b"
    "b \<in> set (keys Exercise.exercise_id (tbl_exercise (work t)))"
    by auto
  from insert_ExerciseLog_ok [OF assms(1) this] obtain l1 t1 where
    one: "insert_ExerciseLog eng l t = Inr (l1, t1)" and
    same: "tbl_workoutsession (work t1) = tbl_workoutsession (work t)"
          "tbl_exercise (work t1) = tbl_exercise (work t)"
    by blast
  have "\<exists>t2. insert_ExerciseLogs eng ls t1 = Inr t2"
    by (rule Cons.IH) (use Cons.prems same in auto)
  with one show ?case by simp
qed

lemma Session_commit_ok:
  assumes "fault_at eng = None"
    and "\<forall>l\<in>set ls. exercise_log_id l = None
           \<and> (\<exists>a. ExerciseLog.session_id l = Some a
                 \<and> a \<in> set (keys WorkoutSession.session_id (tbl_workoutsession (work t))))
           \<and> (\<exists>b. ExerciseLog.exercise_id l = Some b
                 \<and> b \<in> set (keys Exercise.exercise_id (tbl_exercise (work t))))"
  shows "\<exists>d c1. Session_commit eng s ls t c = (Inr d, c1)"
proof -
  obtain t1 c1 where u: "update_WorkoutSession eng s t c = (Inr t1, c1)"
    using assms(1) by (simp add: update_WorkoutSession_def onupdate_eq Let_def)
  have w1: "work t1 = (work t)\<lparr>tbl_workoutsession :=
            map (\<lambda>r. if WorkoutSession.session_id r = WorkoutSession.session_id s
                      then s\<lparr>last_edited_timestamp := Some (readings c (reads c))\<rparr> else r)
              (tbl_workoutsession (work t))\<rparr>"
    by (rule update_WorkoutSession_Inr [OF u])
  have k: "keys WorkoutSession.session_id (tbl_workoutsession (work t1))
             = keys WorkoutSession.session_id (tbl_workoutsession (work t))"
    by (simp add: w1 keys_replace)
  have e: "tbl_exercise (work t1) = tbl_exercise (work t)"
    by (simp add: w1)
  obtain t2 where i: "insert_ExerciseLogs eng ls t1 = Inr t2"
    using insert_ExerciseLogs_ok [OF assms(1), of ls t1] assms(2) unfolding k e by blast
  show ?thesis
    using assms(1) by (simp add: Session_commit_def u i)
qed

lemma insert_new_session:
  assumes "fault_at eng = None"
    and "enforce_fk eng \<longrightarrow> uid \<in> set (keys User.user_id (tbl_user (work t)))"
  shows "\<exists>k t2. insert_WorkoutSession eng (fst (new_WorkoutSession uid c)) t
            = Inr ((fst (new_WorkoutSession uid c))\<lparr>WorkoutSession.session_id := Some k\<rparr>, t2)"
  using assms
  by (auto simp: insert_WorkoutSession_def new_WorkoutSession_eq Let_def fk_ok_def assign_pk_def)

lemma loop_logs:
  assumes "l \<in> set (fst (exercises_loop sid exs c))"
  shows "\<exists>e\<in>set exs. \<exists>n\<in>{1, 2, 3}. log_fields l = planned sid e n"
proof -
  from assms have "log_fields l \<in> set (map log_fields (fst (exercises_loop sid exs c)))"
    by simp
  then show ?thesis
    unfolding exercises_loop_fields by auto
qed

lemma cws_Raised:
  "create_workout_session eng uid w = (Raised err, w') \<Longrightarrow> store w' = store w"
  by (auto simp: create_workout_session_def Let_def
           split: sum.splits prod.splits if_splits)

lemma cws_Returned:
  assumes "create_workout_session eng uid w = (Returned, w')"
  shows "(tbl_exercise (store w) = [] \<and> store w' = store w
            \<and> stdout w' = stdout w @ [''No exercises found. Please add exercises first.''])
       \<or> (tbl_exercise (store w) \<noteq> [] \<and> stdout w' = stdout w \<and>
           (\<exists>k ls1.
               k \<notin> set (keys WorkoutSession.session_id (tbl_workoutsession (store w)))
             \<and> store w' = (store w)
                  \<lparr>tbl_workoutsession := tbl_workoutsession (store w)
                       @ [session_row k uid (clk w) (length (take 3 (tbl_exercise (store w))))],
                   tbl_exerciselog := tbl_exerciselog (store w) @ ls1\<rparr>
             \<and> map log_fields ls1 =
                 concat (map (\<lambda>e. map (planned (Some k) e) [1, 2, 3])
                   (take 3 (tbl_exercise (store w))))
             \<and> (\<forall>l\<in>set ls1. ExerciseLog.exercise_id l \<noteq> None)
             \<and> (\<forall>l\<in>set ls1. \<exists>m. m + 1 < 6 * length (take 3 (tbl_exercise (store w)))
                   \<and> created_timestamp l = Some (readings (clk w) (reads (clk w) + 4 + m))
                   \<and> last_edited_timestamp l
                       = Some (readings (clk w) (reads (clk w) + 5 + m)))))"
proof -
  let ?exs = "take 3 (tbl_exercise (store w))"
  let ?c = "clk w"
  let ?t1 = "step (begin_tx (store w)) (store w)"
  let ?ws = "fst (new_WorkoutSession uid ?c)"
  have nf: "\<not> faulty eng (begin_tx (store w))"
    using assms cws_select_fault [of eng w uid] by auto
  show ?thesis
  proof (cases "tbl_exercise (store w) = []")
    case True
    with assms cws_empty [OF nf True, of uid] show ?thesis by auto
  next
    case False
    obtain flushed t2 where ins: "insert_WorkoutSession eng ?ws ?t1 = Inr (flushed, t2)"
    proof (cases "insert_WorkoutSession eng ?ws ?t1")
      case (Inl err)
      from cws_flush_fails [OF nf False Inl] assms show ?thesis by simp
    next
      case (Inr p)
      then show ?thesis using that by (cases p) simp
    qed
    from insert_WorkoutSession_Inr [OF ins] obtain k where
      fl: "flushed = ?ws\<lparr>WorkoutSession.session_id := Some k\<rparr>" and
      fresh: "k \<notin> set (keys WorkoutSession.session_id (tbl_workoutsession (store w)))" and
      wt2: "work t2 = (store w)\<lparr>tbl_workoutsession := tbl_workoutsession (store w) @ [flushed]\<rparr>"
      by auto
    define n where "n = length ?exs"
    define lp where "lp = exercises_loop (WorkoutSession.session_id flushed) ?exs
                            (snd (new_WorkoutSession uid ?c))"
    define t_end where "t_end = readings ?c (reads ?c + 4 + 6 * n)"
    define t0 where "t0 = readings ?c (reads ?c + 1)"
    define finished where "finished = flushed
          \<lparr>end_time := Some t_end,
           total_duration := Some (py_int (float_div (total_seconds (t_end - t0)) 60))\<rparr>"
    define c3 where "c3 = ?c\<lparr>reads := reads ?c + 5 + 6 * n\<rparr>"
    have sid: "WorkoutSession.session_id flushed = Some k"
      by (simp add: fl)
    have st: "start_time flushed = Some t0"
      by (simp add: fl new_WorkoutSession_eq t0_def)
    have c2: "snd lp = ?c\<lparr>reads := reads ?c + 4 + 6 * n\<rparr>"
      by (simp add: lp_def exercises_loop_clock new_WorkoutSession_eq n_def)
    have fin: "set_end_time flushed (snd lp) = (Inr finished, c3)"
      by (simp add: set_end_time_eq [OF st] c2 finished_def t_end_def c3_def)
    note run = cws_flushed [OF nf False ins lp_def fin]
    from assms run obtain d c4 where
      com: "Session_commit eng finished (fst lp) t2 c3 = (Inr d, c4)" and
      w': "w' = w\<lparr>store := d, clk := c4\<rparr>"
      by (auto split: prod.splits sum.splits)
    from Session_commit_Inr [OF com] obtain ls1 where
      d: "d = (work t2)\<lparr>tbl_workoutsession :=
                 map (\<lambda>r. if WorkoutSession.session_id r = WorkoutSession.session_id finished
                           then finished\<lparr>last_edited_timestamp := Some (readings c3 (reads c3))\<rparr> else r)
                   (tbl_workoutsession (work t2)),
               tbl_exerciselog := tbl_exerciselog (work t2) @ ls1\<rparr>" and
      rel: "list_all2 (\<lambda>l l1. \<exists>k. l1 = l\<lparr>exercise_log_id := Some k\<rparr>) (fst lp) ls1" and
      nn: "\<forall>l\<in>set ls1. ExerciseLog.exercise_id l \<noteq> None"
      by blast
    have fsid: "WorkoutSession.session_id finished = Some k"
      by (simp add: finished_def fl)
    have row: "finished\<lparr>last_edited_timestamp := Some (readings c3 (reads c3))\<rparr>
                 = session_row k uid ?c n"
      by (simp add: finished_def fl new_WorkoutSession_eq session_row_def t_end_def t0_def c3_def)
    have tbl: "map (\<lambda>r. if WorkoutSession.session_id r = Some k
                         then session_row k uid ?c n else r)
                 (tbl_workoutsession (store w) @ [flushed])
               = tbl_workoutsession (store w) @ [session_row k uid ?c n]"
      by (rule replace_fresh [OF fresh sid])
    have d': "d = (store w)\<lparr>tbl_workoutsession := tbl_workoutsession (store w) @ [session_row k uid ?c n],
                   tbl_exerciselog := tbl_exerciselog (store w) @ ls1\<rparr>"
    proof -
      have "d = (store w)\<lparr>tbl_workoutsession :=
                   map (\<lambda>r. if WorkoutSession.session_id r = Some k
                             then session_row k uid ?c n else r)
                     (tbl_workoutsession (store w) @ [flushed]),
                 tbl_exerciselog := tbl_exerciselog (store w) @ ls1\<rparr>"
        using d by (simp add: wt2 fsid row del: map_append)
      then show ?thesis by (simp only: tbl)
    qed
    have fields: "map log_fields ls1 = concat (map (\<lambda>e. map (planned (Some k) e) [1, 2, 3]) ?exs)"
      using stored_log_fields [OF rel] by (simp add: lp_def sid exercises_loop_fields)
    have stamps: "\<forall>l\<in>set ls1. \<exists>m. m + 1 < 6 * length ?exs
                   \<and> created_timestamp l = Some (readings ?c (reads ?c + 4 + m))
                   \<and> last_edited_timestamp l = Some (readings ?c (reads ?c + 5 + m))"
    proof
      fix l1 assume "l1 \<in> set ls1"
      from stored_stamps [OF rel this] obtain l where
        l: "l \<in> set (fst lp)" and
        same: "created_timestamp l1 = created_timestamp l"
              "last_edited_timestamp l1 = last_edited_timestamp l"
        by blast
      from exercises_loop_stamps [OF l [unfolded lp_def]] obtain m where
        "m + 1 < 6 * length ?exs"
        "created_timestamp l = Some (readings ?c (reads ?c + 4 + m))"
        "last_edited_timestamp l = Some (readings ?c (reads ?c + 5 + m))"
        by (auto simp: new_WorkoutSession_eq add_ac)
      with same show "\<exists>m. m + 1 < 6 * length ?exs
                   \<and> created_timestamp l1 = Some (readings ?c (reads ?c + 4 + m))
                   \<and> last_edited_timestamp l1 = Some (readings ?c (reads ?c + 5 + m))"
        by auto
    qed
    have "stdout w' = stdout w" by (simp add: w')
    moreover have "store w' = d" by (simp add: w')
    ultimately show ?thesis
      using False fresh d' fields nn stamps unfolding n_def by blast
  qed
qed

lemma cws_succeeds:
  assumes nofault: "fault_at eng = None"
    and user: "enforce_fk eng \<longrightarrow> uid \<in> set (keys User.user_id (tbl_user (store w)))"
    and nonempty: "tbl_exercise (store w) \<noteq> []"
    and keyed: "\<forall>e\<in>set (take 3 (tbl_exercise (store w))). Exercise.exercise_id e \<noteq> None"
  shows "fst (create_workout_session eng uid w) = Returned"
proof -
  let ?exs = "take 3 (tbl_exercise (store w))"
  let ?c = "clk w"
  let ?t1 = "step (begin_tx (store w)) (store w)"
  let ?ws = "fst (new_WorkoutSession uid ?c)"
  have nf: "\<not> faulty eng (begin_tx (store w))"
    using nofault by simp
  from insert_new_session [OF nofault, of uid ?t1 ?c] user obtain k t2 where
    ins: "insert_WorkoutSession eng ?ws ?t1 = Inr (?ws\<lparr>WorkoutSession.session_id := Some k\<rparr>, t2)"
    by auto
  define flushed where "flushed = ?ws\<lparr>WorkoutSession.session_id := Some k\<rparr>"
  note ins' = ins [folded flushed_def]
  from insert_WorkoutSession_Inr [OF ins'] have
    wt2: "work t2 = (store w)\<lparr>tbl_workoutsession := tbl_workoutsession (store w) @ [flushed]\<rparr>"
    by auto
  define lp where "lp = exercises_loop (WorkoutSession.session_id flushed) ?exs
                          (snd (new_WorkoutSession uid ?c))"
  have st: "start_time flushed = Some (readings ?c (reads ?c + 1))"
    by (simp add: flushed_def new_WorkoutSession_eq)
  obtain finished c3 where fin: "set_end_time flushed (snd lp) = (Inr finished, c3)"
    using set_end_time_eq [OF st] by simp
  note run = cws_flushed [OF nf nonempty ins' lp_def fin]
  have sid: "WorkoutSession.session_id flushed = Some k"
    by (simp add: flushed_def)
  have good: "\<forall>l\<in>set (fst lp). exercise_log_id l = None
           \<and> (\<exists>a. ExerciseLog.session_id l = Some a
                 \<and> a \<in> set (keys WorkoutSession.session_id (tbl_workoutsession (work t2))))
           \<and> (\<exists>b. ExerciseLog.exercise_id l = Some b
                 \<and> b \<in> set (keys Exercise.exercise_id (tbl_exercise (work t2))))"
  proof
    fix l assume l: "l \<in> set (fst lp)"
    then have unkeyed: "exercise_log_id l = None"
      unfolding lp_def by (rule exercises_loop_unkeyed)
    from l obtain e m where e: "e \<in> set ?exs" and lf: "log_fields l = planned (Some k) e m"
      unfolding lp_def sid by (blast dest: loop_logs)
    from lf have ls: "ExerciseLog.session_id l = Some k"
      and le: "ExerciseLog.exercise_id l = Exercise.exercise_id e"
      by (simp_all add: log_fields_def planned_def)
    from e keyed obtain b where b: "Exercise.exercise_id e = Some b" by auto
    from e have "e \<in> set (tbl_exercise (store w))" by (rule in_set_takeD)
    with b have "b \<in> set (keys Exercise.exercise_id (tbl_exercise (work t2)))"
      by (auto simp: wt2 keys_iff)
    moreover have "k \<in> set (keys WorkoutSession.session_id (tbl_workoutsession (work t2)))"
      by (simp add: wt2 keys_iff sid)
    ultimately show "exercise_log_id l = None
           \<and> (\<exists>a. ExerciseLog.session_id l = Some a
                 \<and> a \<in> set (keys WorkoutSession.session_id (tbl_workoutsession (work t2))))
           \<and> (\<exists>b. ExerciseLog.exercise_id l = Some b
                 \<and> b \<in> set (keys Exercise.exercise_id (tbl_exercise (work t2))))"
      using unkeyed ls le b by simp
  qed
  from Session_commit_ok [OF nofault good] obtain d c4 where
    "Session_commit eng finished (fst lp) t2 c3 = (Inr d, c4)"
    by blast
  with run show ?thesis by simp
qed

lemma world0_facts:
  "fault_at engine0 = None"
  "1 \<in> set (keys User.user_id (tbl_user (store world0)))"
  "tbl_exercise (store world0) \<noteq> []"
  "3 \<le> length (tbl_exercise (store world0))"
  "\<forall>e\<in>set (take 3 (tbl_exercise (store world0))). Exercise.exercise_id e \<noteq> None"
  "distinct (map Exercise.exercise_id (tbl_exercise (store world0)))"
  "mono (readings (clk world0))"
  by (simp_all add: engine0_def world0_def db0_def user0_def exercise0_def keys_def
        List.map_filter_simps clock0_def mono_def)

lemma run0: "fst (create_workout_session engine0 1 world0) = Returned"
  by (rule cws_succeeds) (simp_all add: world0_facts)

lemma py_int_nonneg: "0 \<le> x \<Longrightarrow> py_int x = \<lfloor>x\<rfloor>"
  by (simp add: py_int_def)

lemma run0_pair:
  "create_workout_session engine0 1 world0
     = (Returned, snd (create_workout_session engine0 1 world0))"
  using run0 by (simp add: prod_eq_iff)

lemma run0_logs:
  "tbl_exerciselog (store (snd (create_workout_session engine0 1 world0))) \<noteq> []"
proof -
  from cws_Returned [OF run0_pair] world0_facts(3) obtain k ls1 where
    st: "store (snd (create_workout_session engine0 1 world0)) = (store world0)
            \<lparr>tbl_workoutsession := tbl_workoutsession (store world0)
                 @ [session_row k 1 (clk world0) (length (take 3 (tbl_exercise (store world0))))],
             tbl_exerciselog := tbl_exerciselog (store world0) @ ls1\<rparr>" and
    f: "map log_fields ls1 = concat (map (\<lambda>e. map (planned (Some k) e) [1, 2, 3])
          (take 3 (tbl_exercise (store world0))))"
    by blast
  have "take 3 (tbl_exercise (store world0)) \<noteq> []"
    by (simp add: world0_def db0_def)
  then have "map log_fields ls1 \<noteq> []"
    unfolding f by (cases "take 3 (tbl_exercise (store world0))") simp_all
  then show ?thesis using st by simp
qed

lemma insert_unknown_user:
  assumes "fault_at eng = None" and "enforce_fk eng"
    and "uid \<notin> set (keys User.user_id (tbl_user (work t)))"
  shows "insert_WorkoutSession eng (fst (new_WorkoutSession uid c)) t = Inl IntegrityError"
  using assms
  by (simp add: insert_WorkoutSession_def new_WorkoutSession_eq Let_def fk_ok_def)

lemma db0_keys:
  "keys WorkoutType.workout_type_id (tbl_workouttype db0) = []"
  "keys Exercise.exercise_id (tbl_exercise db0) = [1, 2, 3, 4]"
  "keys WorkoutSession.session_id (tbl_workoutsession db0) = []"
  "keys exercise_log_id (tbl_exerciselog db0) = []"
  "keys WorkoutSession.session_id (tbl_workoutsession db2) = [1]"
  "keys Exercise.exercise_id (tbl_exercise db2) = [1, 2, 3, 4]"
  "keys exercise_log_id (tbl_exerciselog db2) = []"
  by (simp_all add: db0_def db2_def exercise0_def session_row_def keys_def List.map_filter_simps)

lemma next_id_values: "next_id [1, 2, 3, 4] = 5" "next_id [] = 1"
  by (simp_all add: next_id_def)

lemma log0_fields:
  "exercise_log_id (log0 sid n) = None"
  "ExerciseLog.session_id (log0 sid n) = Some sid"
  "ExerciseLog.exercise_id (log0 sid n) = Some 1"
  "set_number (log0 sid n) = Some n"
  by (simp_all add: log0_def new_ExerciseLog_fields exercise0_def)

lemma world_back_facts:
  "1 \<in> set (keys User.user_id (tbl_user (store world_back)))"
  "tbl_exercise (store world_back) \<noteq> []"
  "\<forall>e\<in>set (take 3 (tbl_exercise (store world_back))). Exercise.exercise_id e \<noteq> None"
  "length (take 3 (tbl_exercise (store world_back))) = 3"
  "tbl_workoutsession (store world_back) = []"
  "reads (clk world_back) = 0"
  by (simp_all add: world_back_def db0_def user0_def exercise0_def keys_def
        List.map_filter_simps clock_back_def)

lemma run_back: "fst (create_workout_session engine0 1 world_back) = Returned"
  by (rule cws_succeeds) (simp_all add: world0_facts(1) world_back_facts)

section \<open>Timestamps\<close>

lemma updates_created:
  "created_timestamp (fst (updates gaps r c)) = created_timestamp r"
  by (induction gaps arbitrary: r c) (simp_all add: onupdate_eq)

lemma updates_last_edited:
  "\<exists>j. reads c \<le> j
       \<and> last_edited_timestamp (fst (updates (gap # gaps) r c)) = Some (readings c j)"
proof (induction gaps arbitrary: gap r c)
  case Nil
  have "last_edited_timestamp (fst (updates [gap] r c)) = Some (readings c (reads c + gap))"
    by (simp add: onupdate_eq)
  then show ?case by (intro exI [of _ "reads c + gap"]) simp
next
  case (Cons g gaps)
  define r1 where "r1 = r\<lparr>last_edited_timestamp := Some (readings c (reads c + gap))\<rparr>"
  define c1 where "c1 = c\<lparr>reads := Suc (reads c + gap)\<rparr>"
  have unfold: "updates (gap # g # gaps) r c = updates (g # gaps) r1 c1"
    by (simp add: onupdate_eq r1_def c1_def)
  from Cons.IH [of c1 g r1] obtain j where
    j: "reads c1 \<le> j"
       "last_edited_timestamp (fst (updates (g # gaps) r1 c1)) = Some (readings c1 j)"
    by blast
  have "reads c \<le> j" using j(1) by (simp add: c1_def)
  moreover have "last_edited_timestamp (fst (updates (gap # g # gaps) r c)) = Some (readings c j)"
    using j(2) by (simp only: unfold) (simp add: c1_def)
  ultimately show ?case by blast
qed

lemma from_dict_defaults:
  "data ''created_timestamp'' = None \<Longrightarrow> data ''last_edited_timestamp'' = None \<Longrightarrow>
   from_dict data rest c = BaseModel_init rest c"
  by (simp add: from_dict_def BaseModel_init_def split_def Let_def)

text \<open>
  C9, as stated, fails. The two default factories read the wall clock one after the
  other: when the clock is set back between the two readings, the entity is created with
  \<open>created_timestamp\<close> after \<open>last_edited_timestamp\<close>. And \<open>from_dict\<close> takes a timestamp
  that its argument gives as \<open>None\<close>: the entity is created with a null timestamp.
\<close>

theorem timestamps_counterexample:
  "created_timestamp (fst (BaseModel_init () (clock_back\<lparr>reads := 1\<rparr>))) = Some 307000000
   \<and> last_edited_timestamp (fst (BaseModel_init () (clock_back\<lparr>reads := 1\<rparr>))) = Some 14000000
   \<and> \<not> ts_le (created_timestamp (fst (BaseModel_init () (clock_back\<lparr>reads := 1\<rparr>))))
          (last_edited_timestamp (fst (BaseModel_init () (clock_back\<lparr>reads := 1\<rparr>))))
   \<and> created_timestamp (fst (from_dict [''created_timestamp'' \<mapsto> None] () clock0)) = None
   \<and> last_edited_timestamp (fst (from_dict [''created_timestamp'' \<mapsto> None] () clock0)) = Some 0"
  by (simp add: BaseModel_init_eq from_dict_def utcnow_def clock_back_def clock0_def)

text \<open>
  C9, amended. Every entity inherits the two timestamp fields of \<open>BaseModel\<close>. An entity
  constructed without explicit timestamps has both timestamps set, and any sequence of
  later updates that leave the timestamps to the column's \<open>onupdate\<close> keeps
  \<open>created_timestamp\<close> as it was and \<open>last_edited_timestamp\<close> set. When, moreover, the wall
  clock never runs backwards, \<open>created_timestamp \<le> last_edited_timestamp\<close> holds at
  creation and after each of these updates.
\<close>

theorem default_timestamps_ordered:
  assumes "data ''created_timestamp'' = None"
    and "data ''last_edited_timestamp'' = None"
    and "from_dict data rest c = (r, c1)"
    and "updates gaps r c1 = (r2, c2)"
  shows "created_timestamp r \<noteq> None \<and> last_edited_timestamp r \<noteq> None
       \<and> created_timestamp r2 = created_timestamp r
       \<and> last_edited_timestamp r2 \<noteq> None
       \<and> (mono (readings c) \<longrightarrow>
            ts_le (created_timestamp r) (last_edited_timestamp r)
          \<and> ts_le (created_timestamp r2) (last_edited_timestamp r2))"
proof -
  from assms(1-3) have init: "BaseModel_init rest c = (r, c1)"
    by (simp add: from_dict_defaults)
  then have r: "created_timestamp r = Some (readings c (reads c))"
      "last_edited_timestamp r = Some (readings c (Suc (reads c)))"
    and c1: "c1 = c\<lparr>reads := reads c + 2\<rparr>"
    by (auto simp: BaseModel_init_eq)
  have cr2: "created_timestamp r2 = created_timestamp r"
    using updates_created [of gaps r c1] assms(4) by simp
  have last: "\<exists>j. reads c \<le> j \<and> last_edited_timestamp r2 = Some (readings c j)"
  proof (cases gaps)
    case Nil
    with assms(4) have "r2 = r" by simp
    with r show ?thesis by (intro exI [of _ "Suc (reads c)"]) simp
  next
    case (Cons g gs)
    from updates_last_edited [of c1 g gs r] obtain j where
      j: "reads c1 \<le> j" "last_edited_timestamp r2 = Some (readings c1 j)"
      using assms(4) Cons by auto
    from j(1) have "reads c \<le> j" by (simp add: c1)
    with j(2) c1 show ?thesis by (intro exI [of _ j]) simp
  qed
  then obtain j where j: "reads c \<le> j" "last_edited_timestamp r2 = Some (readings c j)"
    by blast
  have "ts_le (created_timestamp r) (last_edited_timestamp r)
          \<and> ts_le (created_timestamp r2) (last_edited_timestamp r2)"
    if m: "mono (readings c)"
  proof -
    have "readings c (reads c) \<le> readings c (Suc (reads c))"
      using m by (simp add: monoD)
    moreover have "readings c (reads c) \<le> readings c j"
      using m j(1) by (simp add: monoD)
    ultimately show ?thesis using r cr2 j(2) by simp
  qed
  with r cr2 j(2) show ?thesis by simp
qed

theorem default_timestamps_ordered_witness:
  "Map.empty ''created_timestamp'' = (None :: datetime option option)
   \<and> Map.empty ''last_edited_timestamp'' = (None :: datetime option option)
   \<and> mono (readings clock0)
   \<and> created_timestamp (fst (from_dict Map.empty () clock0)) \<noteq> None
   \<and> last_edited_timestamp (fst (from_dict Map.empty () clock0)) \<noteq> None
   \<and> ts_le (created_timestamp (fst (from_dict Map.empty () clock0)))
        (last_edited_timestamp (fst (from_dict Map.empty () clock0)))
   \<and> ts_le (created_timestamp (fst (updates [3, 0] (fst (from_dict Map.empty () clock0))
                                     (snd (from_dict Map.empty () clock0)))))
        (last_edited_timestamp (fst (updates [3, 0] (fst (from_dict Map.empty () clock0))
                                     (snd (from_dict Map.empty () clock0)))))"
proof -
  have m: "mono (readings clock0)"
    by (simp add: clock0_def mono_def)
  have e: "Map.empty ''created_timestamp'' = (None :: datetime option option)"
    "Map.empty ''last_edited_timestamp'' = (None :: datetime option option)"
    by simp_all
  note t = default_timestamps_ordered [where data = Map.empty and rest = "()" and c = clock0
      and gaps = "[3, 0]", OF e surjective_pairing surjective_pairing]
  from m t e show ?thesis
    by blast
qed

section \<open>The claims about create_workout_session\<close>

text \<open>
  C4. When no exercise is stored, a call persists nothing: the stored tables after the call
  are the stored tables before it, whatever the engine does.
\<close>

theorem no_exercises_nothing_persisted:
  assumes "tbl_exercise (store w) = []"
  shows "store (snd (create_workout_session eng uid w)) = store w"
proof (cases "faulty eng (begin_tx (store w))")
  case True
  then show ?thesis by (simp add: cws_select_fault)
next
  case False
  then show ?thesis by (simp add: cws_empty [OF False assms])
qed

theorem no_exercises_nothing_persisted_witness:
  "tbl_exercise (store world1) = []
   \<and> store (snd (create_workout_session engine0 1 world1)) = store world1"
proof -
  have e: "tbl_exercise (store world1) = []"
    by (simp add: world1_def)
  from e no_exercises_nothing_persisted [OF e] show ?thesis by simp
qed

text \<open>
  C10. The exercises are not an argument: the call reads the first three stored exercise
  rows. Whatever the tables hold, the log rows a call adds are at most nine (three per
  selected exercise when the call returns), and each refers to one of the first three
  stored exercises.
\<close>

theorem at_most_nine_logs:
  assumes "create_workout_session eng uid w = (r, w')"
  shows "\<exists>logs. tbl_exerciselog (store w') = tbl_exerciselog (store w) @ logs
           \<and> length logs \<le> 9
           \<and> (r = Returned \<longrightarrow> length logs = 3 * min 3 (length (tbl_exercise (store w))))
           \<and> (\<forall>l\<in>set logs. ExerciseLog.exercise_id l
                  \<in> Exercise.exercise_id ` set (take 3 (tbl_exercise (store w))))"
proof (cases r)
  case (Raised err)
  with assms have "store w' = store w" by (simp add: cws_Raised)
  then show ?thesis using Raised by simp
next
  case Returned
  let ?exs = "take 3 (tbl_exercise (store w))"
  from cws_Returned [OF assms [unfolded Returned]] show ?thesis
  proof (elim disjE conjE exE)
    assume "tbl_exercise (store w) = []" "store w' = store w"
    then show ?thesis by simp
  next
    fix k ls1
    assume st: "store w' = (store w)
                  \<lparr>tbl_workoutsession := tbl_workoutsession (store w)
                       @ [session_row k uid (clk w) (length ?exs)],
                   tbl_exerciselog := tbl_exerciselog (store w) @ ls1\<rparr>"
      and f: "map log_fields ls1 = concat (map (\<lambda>e. map (planned (Some k) e) [1, 2, 3]) ?exs)"
    have "length ls1 = length (map log_fields ls1)" by simp
    also have "\<dots> = 3 * length ?exs"
      unfolding f by (simp add: length_concat comp_def sum_list_triv)
    finally have len: "length ls1 = 3 * min 3 (length (tbl_exercise (store w)))"
      by (simp add: min.commute)
    have ids: "\<forall>l\<in>set ls1. ExerciseLog.exercise_id l \<in> Exercise.exercise_id ` set ?exs"
    proof
      fix l assume "l \<in> set ls1"
      then have "log_fields l \<in> set (map log_fields ls1)" by simp
      then obtain e n where "e \<in> set ?exs" "log_fields l = planned (Some k) e n"
        unfolding f by auto
      then show "ExerciseLog.exercise_id l \<in> Exercise.exercise_id ` set ?exs"
        by (auto simp: log_fields_def planned_def)
    qed
    from st len ids show ?thesis
      by (intro exI [of _ ls1]) simp
  qed
qed

theorem at_most_nine_logs_witness:
  "length (tbl_exercise (store world0)) = 4
   \<and> (\<exists>logs. tbl_exerciselog (store (snd (create_workout_session engine0 1 world0)))
                = tbl_exerciselog (store world0) @ logs
           \<and> length logs = 9)"
proof -
  have four: "length (tbl_exercise (store world0)) = 4"
    by (simp add: world0_def db0_def)
  from at_most_nine_logs [OF run0_pair]
  have "\<exists>logs. tbl_exerciselog (store (snd (create_workout_session engine0 1 world0)))
                = tbl_exerciselog (store world0) @ logs
              \<and> length logs = 3 * min 3 (length (tbl_exercise (store world0)))"
    by blast
  with four show ?thesis by simp
qed

text \<open>
  C2. A call is atomic. If it raises, the stored tables are unchanged. Otherwise either
  nothing was stored, or exactly one session row was added together with all of its log
  rows (three per selected exercise, each carrying the key of the new session).
\<close>

theorem session_and_logs_atomic:
  assumes "create_workout_session eng uid w = (r, w')"
  shows "(\<forall>err. r = Raised err \<longrightarrow> store w' = store w)
       \<and> (store w' = store w
          \<or> (r = Returned
              \<and> (\<exists>s k logs.
                    tbl_workoutsession (store w') = tbl_workoutsession (store w) @ [s]
                  \<and> WorkoutSession.session_id s = Some k
                  \<and> k \<notin> set (keys WorkoutSession.session_id (tbl_workoutsession (store w)))
                  \<and> tbl_exerciselog (store w') = tbl_exerciselog (store w) @ logs
                  \<and> logs \<noteq> []
                  \<and> length logs = 3 * length (take 3 (tbl_exercise (store w)))
                  \<and> (\<forall>l\<in>set logs. ExerciseLog.session_id l = Some k))))"
proof (cases r)
  case (Raised err)
  with assms have "store w' = store w" by (simp add: cws_Raised)
  then show ?thesis by simp
next
  case Returned
  let ?exs = "take 3 (tbl_exercise (store w))"
  from cws_Returned [OF assms [unfolded Returned]] show ?thesis
  proof (elim disjE conjE exE)
    assume "store w' = store w"
    then show ?thesis using Returned by simp
  next
    fix k ls1
    assume ne: "tbl_exercise (store w) \<noteq> []"
      and fresh: "k \<notin> set (keys WorkoutSession.session_id (tbl_workoutsession (store w)))"
      and st: "store w' = (store w)
                  \<lparr>tbl_workoutsession := tbl_workoutsession (store w)
                       @ [session_row k uid (clk w) (length ?exs)],
                   tbl_exerciselog := tbl_exerciselog (store w) @ ls1\<rparr>"
      and f: "map log_fields ls1 = concat (map (\<lambda>e. map (planned (Some k) e) [1, 2, 3]) ?exs)"
    have "length ls1 = length (map log_fields ls1)" by simp
    also have "\<dots> = 3 * length ?exs"
      unfolding f by (simp add: length_concat comp_def sum_list_triv)
    finally have len: "length ls1 = 3 * length ?exs" .
    have nonempty: "ls1 \<noteq> []"
    proof
      assume "ls1 = []"
      with len have "?exs = []" by (auto simp: min_def split: if_splits)
      with ne show False by (simp add: take_eq_Nil)
    qed
    have sid: "\<forall>l\<in>set ls1. ExerciseLog.session_id l = Some k"
    proof
      fix l assume "l \<in> set ls1"
      then have "log_fields l \<in> set (map log_fields ls1)" by simp
      then obtain e n where "log_fields l = planned (Some k) e n"
        unfolding f by auto
      then show "ExerciseLog.session_id l = Some k"
        by (simp add: log_fields_def planned_def)
    qed
    have "WorkoutSession.session_id (session_row k uid (clk w) (length ?exs)) = Some k"
      by (simp add: session_row_def)
    with st fresh nonempty len sid Returned show ?thesis
      by (intro conjI disjI2 allI impI exI [of _ ls1] exI [of _ k]
            exI [of _ "session_row k uid (clk w) (length ?exs)"]) simp_all
  qed
qed

theorem session_and_logs_atomic_witness:
  "fst (create_workout_session engine0 1 world0) = Returned
   \<and> store (snd (create_workout_session engine0 1 world0)) \<noteq> store world0
   \<and> (\<exists>s logs. tbl_workoutsession (store (snd (create_workout_session engine0 1 world0))) = [s]
         \<and> tbl_exerciselog (store (snd (create_workout_session engine0 1 world0))) = logs
         \<and> length logs = 9
         \<and> (\<forall>l\<in>set logs. ExerciseLog.session_id l = WorkoutSession.session_id s))"
proof -
  let ?w' = "snd (create_workout_session engine0 1 world0)"
  have len: "length (take 3 (tbl_exercise (store world0))) = 3"
    by (simp add: world0_def db0_def)
  have empty: "tbl_workoutsession (store world0) = []" "tbl_exerciselog (store world0) = []"
    by (simp_all add: world0_def db0_def)
  have run: "create_workout_session engine0 1 world0 = (Returned, ?w')"
    using run0 by (simp add: prod_eq_iff)
  from session_and_logs_atomic [OF run] have
    "store ?w' = store world0
     \<or> (\<exists>s k logs.
           tbl_workoutsession (store ?w') = tbl_workoutsession (store world0) @ [s]
         \<and> WorkoutSession.session_id s = Some k
         \<and> tbl_exerciselog (store ?w') = tbl_exerciselog (store world0) @ logs
         \<and> logs \<noteq> []
         \<and> length logs = 3 * length (take 3 (tbl_exercise (store world0)))
         \<and> (\<forall>l\<in>set logs. ExerciseLog.session_id l = Some k))"
    by blast
  moreover have "store ?w' \<noteq> store world0"
  proof
    assume same: "store ?w' = store world0"
    from cws_Returned [OF run] world0_facts(3) obtain k ls1 where
      "store ?w' = (store world0)
          \<lparr>tbl_workoutsession := tbl_workoutsession (store world0)
               @ [session_row k 1 (clk world0) (length (take 3 (tbl_exercise (store world0))))],
           tbl_exerciselog := tbl_exerciselog (store world0) @ ls1\<rparr>"
      by blast
    then have "tbl_workoutsession (store ?w') \<noteq> tbl_workoutsession (store world0)"
      by simp
    with same show False by simp
  qed
  ultimately show ?thesis
    using run0 len empty by auto
qed

text \<open>
  C1. With at least three exercises stored (so that three are selected), on an engine that
  does not fail and for a user the engine accepts, a call returns and adds exactly nine log
  rows: for each of the three exercises, in order, the sets 1, 2 and 3, with 10 repetitions
  in sets 1 and 2 and 8 in set 3; every row has a rest time of 60 and difficulty Medium.
\<close>

theorem three_exercises_nine_logs:
  assumes "fault_at eng = None"
    and "enforce_fk eng \<longrightarrow> uid \<in> set (keys User.user_id (tbl_user (store w)))"
    and "3 \<le> length (tbl_exercise (store w))"
    and "\<forall>e\<in>set (take 3 (tbl_exercise (store w))). Exercise.exercise_id e \<noteq> None"
  shows "\<exists>logs.
           fst (create_workout_session eng uid w) = Returned
         \<and> tbl_exerciselog (store (snd (create_workout_session eng uid w)))
             = tbl_exerciselog (store w) @ logs
         \<and> length logs = 9
         \<and> map (\<lambda>l. (ExerciseLog.exercise_id l, set_number l, repetitions l, rest_time l,
                       ExerciseLog.difficulty_level l)) logs
             = concat (map (\<lambda>e. [(Exercise.exercise_id e, Some 1, Some 10, Some 60, Some ''Medium''),
                                   (Exercise.exercise_id e, Some 2, Some 10, Some 60, Some ''Medium''),
                                   (Exercise.exercise_id e, Some 3, Some 8, Some 60, Some ''Medium'')])
                 (take 3 (tbl_exercise (store w))))"
proof -
  let ?exs = "take 3 (tbl_exercise (store w))"
  let ?view = "\<lambda>l. (ExerciseLog.exercise_id l, set_number l, repetitions l, rest_time l,
                     ExerciseLog.difficulty_level l)"
  let ?pick = "\<lambda>(s :: int option, e :: int option, n :: int option, r :: int option,
                   wt :: real option, t :: int option, d :: string option). (e, n, r, t, d)"
  from assms(3) have ne: "tbl_exercise (store w) \<noteq> []" by auto
  have ok: "fst (create_workout_session eng uid w) = Returned"
    by (rule cws_succeeds [OF assms(1) assms(2) ne assms(4)])
  then have run: "create_workout_session eng uid w
                    = (Returned, snd (create_workout_session eng uid w))"
    by (simp add: prod_eq_iff)
  from cws_Returned [OF run] ne obtain k ls1 where
    st: "store (snd (create_workout_session eng uid w)) = (store w)
            \<lparr>tbl_workoutsession := tbl_workoutsession (store w)
                 @ [session_row k uid (clk w) (length ?exs)],
             tbl_exerciselog := tbl_exerciselog (store w) @ ls1\<rparr>" and
    f: "map log_fields ls1 = concat (map (\<lambda>e. map (planned (Some k) e) [1, 2, 3]) ?exs)"
    by blast
  have three: "length ?exs = 3" using assms(3) by simp
  have "length ls1 = length (map log_fields ls1)" by simp
  also have "\<dots> = 3 * length ?exs"
    unfolding f by (simp add: length_concat comp_def sum_list_triv)
  finally have len: "length ls1 = 9" using three by simp
  have "map ?view ls1 = map ?pick (map log_fields ls1)"
    by (simp add: log_fields_def)
  also have "\<dots> = concat (map (\<lambda>e. map (\<lambda>n. ?pick (planned (Some k) e n)) [1, 2, 3]) ?exs)"
    unfolding f by (simp add: map_concat comp_def)
  also have "\<dots> = concat (map (\<lambda>e. [(Exercise.exercise_id e, Some 1, Some 10, Some 60, Some ''Medium''),
                                   (Exercise.exercise_id e, Some 2, Some 10, Some 60, Some ''Medium''),
                                   (Exercise.exercise_id e, Some 3, Some 8, Some 60, Some ''Medium'')])
                 ?exs)"
    by (simp add: planned_def)
  finally have view: "map ?view ls1 = concat (map (\<lambda>e. [(Exercise.exercise_id e, Some 1, Some 10, Some 60, Some ''Medium''),
                                   (Exercise.exercise_id e, Some 2, Some 10, Some 60, Some ''Medium''),
                                   (Exercise.exercise_id e, Some 3, Some 8, Some 60, Some ''Medium'')])
                 ?exs)" .
  from ok st len view show ?thesis
    by (intro exI [of _ ls1]) simp
qed

theorem three_exercises_nine_logs_witness:
  "\<exists>logs.
      fst (create_workout_session engine0 1 world0) = Returned
    \<and> tbl_exerciselog (store (snd (create_workout_session engine0 1 world0))) = logs
    \<and> length logs = 9
    \<and> map (\<lambda>l. (ExerciseLog.exercise_id l, set_number l, repetitions l, rest_time l,
                  ExerciseLog.difficulty_level l)) logs
        = [(Some 1, Some 1, Some 10, Some 60, Some ''Medium''),
           (Some 1, Some 2, Some 10, Some 60, Some ''Medium''),
           (Some 1, Some 3, Some 8, Some 60, Some ''Medium''),
           (Some 2, Some 1, Some 10, Some 60, Some ''Medium''),
           (Some 2, Some 2, Some 10, Some 60, Some ''Medium''),
           (Some 2, Some 3, Some 8, Some 60, Some ''Medium''),
           (Some 3, Some 1, Some 10, Some 60, Some ''Medium''),
           (Some 3, Some 2, Some 10, Some 60, Some ''Medium''),
           (Some 3, Some 3, Some 8, Some 60, Some ''Medium'')]"
proof -
  have user: "enforce_fk engine0 \<longrightarrow> 1 \<in> set (keys User.user_id (tbl_user (store world0)))"
    by (simp add: world0_facts)
  have exs: "take 3 (tbl_exercise (store world0))
               = [exercise0 1 (Some ''Legs''), exercise0 2 (Some ''Biceps''), exercise0 3 None]"
    by (simp add: world0_def db0_def)
  have empty: "tbl_exerciselog (store world0) = []"
    by (simp add: world0_def db0_def)
  from three_exercises_nine_logs [OF world0_facts(1) user world0_facts(4) world0_facts(5)]
  show ?thesis
    unfolding exs empty by (simp add: exercise0_def)
qed

text \<open>
  C5. Every log row a call adds refers to a stored exercise, and its weight is 50 when that
  exercise's primary muscle group is Chest, Back or Legs, and 25 for any other group, an
  unset one included. (Exercise keys are unique, so the exercise referred to is determined.)
\<close>

theorem log_weight_by_muscle_group:
  assumes "create_workout_session eng uid w = (r, w')"
    and "distinct (map Exercise.exercise_id (tbl_exercise (store w)))"
  shows "\<exists>logs.
           tbl_exerciselog (store w') = tbl_exerciselog (store w) @ logs
         \<and> (\<forall>l\<in>set logs.
               (\<exists>e\<in>set (tbl_exercise (store w)).
                   Exercise.exercise_id e = ExerciseLog.exercise_id l)
             \<and> (\<forall>e\<in>set (tbl_exercise (store w)).
                   Exercise.exercise_id e = ExerciseLog.exercise_id l \<longrightarrow>
                   weight l = Some (if primary_muscle_group e
                                         \<in> {Some ''Chest'', Some ''Back'', Some ''Legs''}
                                    then 50 else 25)))"
proof (cases r)
  case (Raised err)
  with assms(1) have "store w' = store w" by (simp add: cws_Raised)
  then show ?thesis by simp
next
  case Returned
  let ?exs = "take 3 (tbl_exercise (store w))"
  from cws_Returned [OF assms(1) [unfolded Returned]] show ?thesis
  proof (elim disjE conjE exE)
    assume "store w' = store w"
    then show ?thesis by simp
  next
    fix k ls1
    assume st: "store w' = (store w)
                  \<lparr>tbl_workoutsession := tbl_workoutsession (store w)
                       @ [session_row k uid (clk w) (length ?exs)],
                   tbl_exerciselog := tbl_exerciselog (store w) @ ls1\<rparr>"
      and f: "map log_fields ls1 = concat (map (\<lambda>e. map (planned (Some k) e) [1, 2, 3]) ?exs)"
    have each: "\<forall>l\<in>set ls1.
               (\<exists>e\<in>set (tbl_exercise (store w)).
                   Exercise.exercise_id e = ExerciseLog.exercise_id l)
             \<and> (\<forall>e\<in>set (tbl_exercise (store w)).
                   Exercise.exercise_id e = ExerciseLog.exercise_id l \<longrightarrow>
                   weight l = Some (if primary_muscle_group e
                                         \<in> {Some ''Chest'', Some ''Back'', Some ''Legs''}
                                    then 50 else 25))"
    proof
      fix l assume "l \<in> set ls1"
      then have "log_fields l \<in> set (map log_fields ls1)" by simp
      then obtain e0 n where e0: "e0 \<in> set ?exs" and lf: "log_fields l = planned (Some k) e0 n"
        unfolding f by auto
      from e0 have mem: "e0 \<in> set (tbl_exercise (store w))" by (rule in_set_takeD)
      from lf have id: "ExerciseLog.exercise_id l = Exercise.exercise_id e0"
        and wt: "weight l = Some (weight_for e0)"
        by (simp_all add: log_fields_def planned_def)
      have uniq: "e = e0"
        if "e \<in> set (tbl_exercise (store w))"
          and "Exercise.exercise_id e = ExerciseLog.exercise_id l" for e
        using that mem id assms(2) by (auto simp: distinct_map dest: inj_onD)
      show "(\<exists>e\<in>set (tbl_exercise (store w)).
                   Exercise.exercise_id e = ExerciseLog.exercise_id l)
             \<and> (\<forall>e\<in>set (tbl_exercise (store w)).
                   Exercise.exercise_id e = ExerciseLog.exercise_id l \<longrightarrow>
                   weight l = Some (if primary_muscle_group e
                                         \<in> {Some ''Chest'', Some ''Back'', Some ''Legs''}
                                    then 50 else 25))"
      proof (intro conjI ballI impI)
        show "\<exists>e\<in>set (tbl_exercise (store w)). Exercise.exercise_id e = ExerciseLog.exercise_id l"
          using mem id by auto
      next
        fix e assume "e \<in> set (tbl_exercise (store w))"
          and "Exercise.exercise_id e = ExerciseLog.exercise_id l"
        then have "e = e0" by (rule uniq)
        with wt show "weight l = Some (if primary_muscle_group e
                                         \<in> {Some ''Chest'', Some ''Back'', Some ''Legs''}
                                    then 50 else 25)"
          by (simp add: weight_for_def)
      qed
    qed
    from st each show ?thesis
      by (intro exI [of _ ls1]) simp
  qed
qed

theorem log_weight_by_muscle_group_witness:
  "distinct (map Exercise.exercise_id (tbl_exercise (store world0)))
   \<and> (\<exists>logs. tbl_exerciselog (store (snd (create_workout_session engine0 1 world0))) = logs
         \<and> logs \<noteq> []
         \<and> (\<forall>l\<in>set logs. ExerciseLog.exercise_id l = Some 1 \<longrightarrow> weight l = Some 50)
         \<and> (\<forall>l\<in>set logs. ExerciseLog.exercise_id l = Some 2 \<longrightarrow> weight l = Some 25)
         \<and> (\<forall>l\<in>set logs. ExerciseLog.exercise_id l = Some 3 \<longrightarrow> weight l = Some 25))"
proof -
  let ?logs = "tbl_exerciselog (store (snd (create_workout_session engine0 1 world0)))"
  have empty: "tbl_exerciselog (store world0) = []"
    by (simp add: world0_def db0_def)
  have tbl: "tbl_exercise (store world0)
               = [exercise0 1 (Some ''Legs''), exercise0 2 (Some ''Biceps''),
                  exercise0 3 None, exercise0 4 (Some ''Back'')]"
    by (simp add: world0_def db0_def)
  from log_weight_by_muscle_group [OF run0_pair world0_facts(6)]
  have each: "\<forall>l\<in>set ?logs. \<forall>e\<in>set (tbl_exercise (store world0)).
                Exercise.exercise_id e = ExerciseLog.exercise_id l \<longrightarrow>
                weight l = Some (if primary_muscle_group e
                                      \<in> {Some ''Chest'', Some ''Back'', Some ''Legs''}
                                 then 50 else 25)"
    unfolding empty by auto
  have a: "\<forall>l\<in>set ?logs. ExerciseLog.exercise_id l = Some 1 \<longrightarrow> weight l = Some 50"
    using each unfolding tbl by (auto simp: exercise0_def)
  have b: "\<forall>l\<in>set ?logs. ExerciseLog.exercise_id l = Some 2 \<longrightarrow> weight l = Some 25"
    using each unfolding tbl by (auto simp: exercise0_def)
  have c: "\<forall>l\<in>set ?logs. ExerciseLog.exercise_id l = Some 3 \<longrightarrow> weight l = Some 25"
    using each unfolding tbl by (auto simp: exercise0_def)
  from world0_facts(6) run0_logs a b c show ?thesis by simp
qed

text \<open>
  C6, as stated, fails. \<open>end_time\<close> is a later reading of the wall clock than \<open>start_time\<close>,
  not a later time: when the clock is set back in between, the call stores a session whose
  \<open>end_time\<close> is before its \<open>start_time\<close>, and \<open>int\<close> truncates the negative quotient towards
  zero, so \<open>total_duration\<close> is \<open>-2\<close> where the floor is \<open>-3\<close>.
\<close>

theorem duration_counterexample:
  "fst (create_workout_session engine0 1 world_back) = Returned
   \<and> map session_times
       (tbl_workoutsession (store (snd (create_workout_session engine0 1 world_back))))
       = [(Some 307000000, Some 154000000, Some (- 2))]
   \<and> \<lfloor>float_div (total_seconds (154000000 - 307000000)) 60\<rfloor> = - 3"
proof -
  let ?w' = "snd (create_workout_session engine0 1 world_back)"
  have pair: "create_workout_session engine0 1 world_back = (Returned, ?w')"
    using run_back by (simp add: prod_eq_iff)
  from cws_Returned [OF pair] world_back_facts(2) obtain k ls1 where
    st: "store ?w' = (store world_back)
            \<lparr>tbl_workoutsession := tbl_workoutsession (store world_back)
                 @ [session_row k 1 (clk world_back)
                      (length (take 3 (tbl_exercise (store world_back))))],
             tbl_exerciselog := tbl_exerciselog (store world_back) @ ls1\<rparr>"
    by blast
  have "tbl_workoutsession (store ?w')
          = tbl_workoutsession (store world_back)
              @ [session_row k 1 (clk world_back)
                   (length (take 3 (tbl_exercise (store world_back))))]"
    by (simp add: st del: length_take)
  then have tbl: "tbl_workoutsession (store ?w') = [session_row k 1 (clk world_back) 3]"
    by (simp only: world_back_facts(4,5) append_Nil)
  have "session_times (session_row k 1 (clk world_back) 3)
          = (Some 307000000, Some 154000000,
             Some (py_int (float_div (total_seconds (- 153000000)) 60)))"
    by (simp add: session_times_def session_row_def world_back_def clock_back_def)
  then have "map session_times (tbl_workoutsession (store ?w'))
               = [(Some 307000000, Some 154000000, Some (- 2))]"
    by (simp only: tbl float_minutes_examples list.map)
  moreover have "\<lfloor>float_div (total_seconds (154000000 - 307000000)) 60\<rfloor> = - 3"
    using float_minutes_examples(2) by simp
  ultimately show ?thesis using run_back by simp
qed

text \<open>
  C6, amended. A call that returns after finding exercises stores one new session row.
  Its \<open>start_time\<close> is the second reading of the wall clock in the call and its \<open>end_time\<close>
  a later one, taken after every log of the call has been constructed: the timestamps of
  each log row are readings in between. \<open>total_duration\<close> is the float quotient of the
  seconds of the span by 60, truncated towards zero. When \<open>end_time\<close> is not before
  \<open>start_time\<close>, as it is when the clock never runs backwards, this is the floor of that
  quotient; and for a span of less than 8053063680 seconds it is the whole number of
  minutes of the span.
\<close>

theorem duration_truncated_minutes:
  assumes "create_workout_session eng uid w = (Returned, w')"
    and "tbl_exercise (store w) \<noteq> []"
  shows "\<exists>s i j logs.
           tbl_workoutsession (store w') = tbl_workoutsession (store w) @ [s]
         \<and> tbl_exerciselog (store w') = tbl_exerciselog (store w) @ logs
         \<and> i = reads (clk w) + 1
         \<and> j = reads (clk w) + 4 + 6 * length (take 3 (tbl_exercise (store w)))
         \<and> start_time s = Some (readings (clk w) i)
         \<and> end_time s = Some (readings (clk w) j)
         \<and> i < j
         \<and> (\<forall>l\<in>set logs. \<exists>m. i < m \<and> m + 1 < j
               \<and> created_timestamp l = Some (readings (clk w) m)
               \<and> last_edited_timestamp l = Some (readings (clk w) (m + 1)))
         \<and> total_duration s
             = Some (py_int (float_div
                      (total_seconds (readings (clk w) j - readings (clk w) i)) 60))
         \<and> (mono (readings (clk w)) \<longrightarrow> readings (clk w) i \<le> readings (clk w) j)
         \<and> (readings (clk w) i \<le> readings (clk w) j \<longrightarrow>
              total_duration s
                = Some \<lfloor>float_div (total_seconds (readings (clk w) j - readings (clk w) i)) 60\<rfloor>)
         \<and> (readings (clk w) i \<le> readings (clk w) j
              \<and> readings (clk w) j - readings (clk w) i < 8053063680000000 \<longrightarrow>
              total_duration s
                = Some ((readings (clk w) j - readings (clk w) i) div 60000000))"
proof -
  let ?n = "length (take 3 (tbl_exercise (store w)))"
  let ?c = "clk w"
  let ?i = "reads ?c + 1"
  let ?j = "reads ?c + 4 + 6 * ?n"
  let ?d = "readings ?c ?j - readings ?c ?i"
  from cws_Returned [OF assms(1)] assms(2) obtain k ls1 where
    st: "store w' = (store w)
            \<lparr>tbl_workoutsession := tbl_workoutsession (store w) @ [session_row k uid ?c ?n],
             tbl_exerciselog := tbl_exerciselog (store w) @ ls1\<rparr>" and
    stamps: "\<forall>l\<in>set ls1. \<exists>m. m + 1 < 6 * ?n
                   \<and> created_timestamp l = Some (readings ?c (reads ?c + 4 + m))
                   \<and> last_edited_timestamp l = Some (readings ?c (reads ?c + 5 + m))"
    by blast
  define s where "s = session_row k uid ?c ?n"
  have t1: "tbl_workoutsession (store w') = tbl_workoutsession (store w) @ [s]"
    by (simp add: st s_def)
  have t2: "tbl_exerciselog (store w') = tbl_exerciselog (store w) @ ls1"
    by (simp add: st)
  have a: "start_time s = Some (readings ?c ?i)"
    and b: "end_time s = Some (readings ?c ?j)"
    and d: "total_duration s = Some (py_int (float_div (total_seconds ?d) 60))"
    by (simp_all add: s_def session_row_def)
  have ij: "?i < ?j" by simp
  have between: "\<forall>l\<in>set ls1. \<exists>m. ?i < m \<and> m + 1 < ?j
               \<and> created_timestamp l = Some (readings ?c m)
               \<and> last_edited_timestamp l = Some (readings ?c (m + 1))"
  proof
    fix l assume "l \<in> set ls1"
    with stamps obtain m where m: "m + 1 < 6 * ?n"
      "created_timestamp l = Some (readings ?c (reads ?c + 4 + m))"
      "last_edited_timestamp l = Some (readings ?c (reads ?c + 5 + m))"
      by blast
    have "reads ?c + 5 + m = (reads ?c + 4 + m) + 1" by simp
    with m show "\<exists>m. ?i < m \<and> m + 1 < ?j
               \<and> created_timestamp l = Some (readings ?c m)
               \<and> last_edited_timestamp l = Some (readings ?c (m + 1))"
      by (intro exI [of _ "reads ?c + 4 + m"]) simp
  qed
  have mono: "mono (readings ?c) \<longrightarrow> readings ?c ?i \<le> readings ?c ?j"
    by (auto intro: monoD)
  have fl: "readings ?c ?i \<le> readings ?c ?j \<longrightarrow>
              total_duration s = Some \<lfloor>float_div (total_seconds ?d) 60\<rfloor>"
  proof
    assume "readings ?c ?i \<le> readings ?c ?j"
    then have "0 \<le> ?d" by simp
    then have "0 \<le> float_div (total_seconds ?d) 60" by (rule float_quotient_sign)
    then have "py_int (float_div (total_seconds ?d) 60) = \<lfloor>float_div (total_seconds ?d) 60\<rfloor>"
      by (rule py_int_nonneg)
    then show "total_duration s = Some \<lfloor>float_div (total_seconds ?d) 60\<rfloor>"
      by (simp only: d)
  qed
  have mins: "readings ?c ?i \<le> readings ?c ?j \<and> ?d < 8053063680000000 \<longrightarrow>
                total_duration s = Some (?d div 60000000)"
  proof
    assume h: "readings ?c ?i \<le> readings ?c ?j \<and> ?d < 8053063680000000"
    then have "0 \<le> ?d" by simp
    from whole_minutes_float [OF this] h
    have "py_int (float_div (total_seconds ?d) 60) = ?d div 60000000" by blast
    then show "total_duration s = Some (?d div 60000000)"
      by (simp only: d)
  qed
  from t1 t2 a b ij between d mono fl mins show ?thesis
    by (intro exI [of _ s] exI [of _ ?i] exI [of _ ?j] exI [of _ ls1] conjI refl)
qed

theorem duration_truncated_minutes_witness:
  "create_workout_session engine0 1 world0
     = (Returned, snd (create_workout_session engine0 1 world0))
   \<and> tbl_exercise (store world0) \<noteq> []
   \<and> mono (readings (clk world0))
   \<and> (\<exists>s. tbl_workoutsession (store (snd (create_workout_session engine0 1 world0))) = [s]
         \<and> start_time s = Some 7000000 \<and> end_time s = Some 154000000
         \<and> total_duration s = Some 2)"
proof -
  let ?w' = "snd (create_workout_session engine0 1 world0)"
  let ?rd = "readings (clk world0)"
  from duration_truncated_minutes [OF run0_pair world0_facts(3)] obtain s i j where
    t: "tbl_workoutsession (store ?w') = tbl_workoutsession (store world0) @ [s]" and
    ab: "start_time s = Some (?rd i)" "end_time s = Some (?rd j)" and
    d: "?rd i \<le> ?rd j \<and> ?rd j - ?rd i < 8053063680000000 \<longrightarrow>
          total_duration s = Some ((?rd j - ?rd i) div 60000000)"
    by blast
  from cws_Returned [OF run0_pair] world0_facts(3) obtain k ls1 where
    st: "store ?w' = (store world0)
            \<lparr>tbl_workoutsession := tbl_workoutsession (store world0)
                 @ [session_row k 1 (clk world0) (length (take 3 (tbl_exercise (store world0))))],
             tbl_exerciselog := tbl_exerciselog (store world0) @ ls1\<rparr>"
    by blast
  have s: "s = session_row k 1 (clk world0) (length (take 3 (tbl_exercise (store world0))))"
    using t st by simp
  have a: "start_time s = Some 7000000" and b: "end_time s = Some 154000000"
    unfolding s by (simp_all add: session_row_def world0_def db0_def clock0_def)
  from a b ab have i: "?rd i = 7000000" and j: "?rd j = 154000000" by simp_all
  have "tbl_workoutsession (store ?w') = [s]"
    using t by (simp add: world0_def db0_def)
  moreover have "total_duration s = Some 2"
    using d unfolding i j by simp
  ultimately show ?thesis
    using a b run0_pair world0_facts(3) world0_facts(7) by blast
qed

text \<open>
  C3, as stated, fails. With no exercise stored the call prints its message and returns
  normally: no error is raised. With a user key that no stored user has, on an engine that
  does not enforce foreign keys, the call returns normally as well.
\<close>

theorem precondition_counterexample:
  "tbl_exercise (store world1) = []
   \<and> create_workout_session engine0 1 world1
       = (Returned, world1\<lparr>stdout := [''No exercises found. Please add exercises first.'']\<rparr>)
   \<and> 7 \<notin> set (keys User.user_id (tbl_user (store world0)))
   \<and> fst (create_workout_session engine_nofk 7 world0) = Returned"
proof -
  have e: "tbl_exercise (store world1) = []"
    by (simp add: world1_def)
  have nf: "\<not> faulty engine0 (begin_tx (store world1))"
    by (simp add: world0_facts)
  have out: "stdout world1 = []"
    by (simp add: world1_def)
  have a: "create_workout_session engine0 1 world1
       = (Returned, world1\<lparr>stdout := [''No exercises found. Please add exercises first.'']\<rparr>)"
    using cws_empty [OF nf e, of 1] by (simp add: out)
  have u: "7 \<notin> set (keys User.user_id (tbl_user (store world0)))"
    by (simp add: world0_def db0_def user0_def keys_def List.map_filter_simps)
  have b: "fst (create_workout_session engine_nofk 7 world0) = Returned"
    by (rule cws_succeeds) (simp_all add: engine_nofk_def world0_facts)
  from e a u b show ?thesis by simp
qed

text \<open>
  C3, amended. The call never raises a precondition error of its own. On an engine that
  does not fail: with no exercise stored it prints ``No exercises found. Please add
  exercises first.'' and returns normally, storing nothing; with exercises stored and a
  user key that no stored user has, it fails with the engine's integrity error at the
  flush of the session row, storing nothing, when the engine enforces foreign keys, and
  returns normally when the engine does not.
\<close>

theorem no_precondition_check:
  assumes "fault_at eng = None"
  shows "(tbl_exercise (store w) = [] \<longrightarrow>
            create_workout_session eng uid w
              = (Returned,
                 w\<lparr>stdout := stdout w @ [''No exercises found. Please add exercises first.'']\<rparr>))
       \<and> (tbl_exercise (store w) \<noteq> [] \<and> enforce_fk eng
            \<and> uid \<notin> set (keys User.user_id (tbl_user (store w))) \<longrightarrow>
            fst (create_workout_session eng uid w) = Raised IntegrityError
            \<and> store (snd (create_workout_session eng uid w)) = store w)
       \<and> (tbl_exercise (store w) \<noteq> [] \<and> \<not> enforce_fk eng
            \<and> (\<forall>e\<in>set (take 3 (tbl_exercise (store w))). Exercise.exercise_id e \<noteq> None) \<longrightarrow>
            fst (create_workout_session eng uid w) = Returned)"
proof (intro conjI impI)
  have nf: "\<not> faulty eng (begin_tx (store w))"
    using assms by simp
  {
    assume "tbl_exercise (store w) = []"
    then show "create_workout_session eng uid w
              = (Returned,
                 w\<lparr>stdout := stdout w @ [''No exercises found. Please add exercises first.'']\<rparr>)"
      by (rule cws_empty [OF nf])
  }
  {
    assume h: "tbl_exercise (store w) \<noteq> [] \<and> enforce_fk eng
            \<and> uid \<notin> set (keys User.user_id (tbl_user (store w)))"
    then have "insert_WorkoutSession eng (fst (new_WorkoutSession uid (clk w)))
                 (step (begin_tx (store w)) (store w)) = Inl IntegrityError"
      by (intro insert_unknown_user [OF assms]) simp_all
    from cws_flush_fails [OF nf _ this] h
    have run: "create_workout_session eng uid w
                 = (Raised IntegrityError, w\<lparr>clk := snd (new_WorkoutSession uid (clk w))\<rparr>)"
      by simp
    show "fst (create_workout_session eng uid w) = Raised IntegrityError"
      by (simp add: run)
    show "store (snd (create_workout_session eng uid w)) = store w"
      by (simp add: run)
  }
  {
    assume h: "tbl_exercise (store w) \<noteq> [] \<and> \<not> enforce_fk eng
            \<and> (\<forall>e\<in>set (take 3 (tbl_exercise (store w))). Exercise.exercise_id e \<noteq> None)"
    show "fst (create_workout_session eng uid w) = Returned"
      by (rule cws_succeeds [OF assms]) (use h in simp_all)
  }
qed

theorem no_precondition_check_witness:
  "fault_at engine0 = None
   \<and> tbl_exercise (store world1) = []
   \<and> fst (create_workout_session engine0 1 world1) = Returned
   \<and> tbl_exercise (store world0) \<noteq> [] \<and> enforce_fk engine0
   \<and> 7 \<notin> set (keys User.user_id (tbl_user (store world0)))
   \<and> fst (create_workout_session engine0 7 world0) = Raised IntegrityError
   \<and> store (snd (create_workout_session engine0 7 world0)) = store world0"
proof -
  have e: "tbl_exercise (store world1) = []"
    by (simp add: world1_def)
  have u: "7 \<notin> set (keys User.user_id (tbl_user (store world0)))"
    by (simp add: world0_def db0_def user0_def keys_def List.map_filter_simps)
  have fk: "enforce_fk engine0"
    by (simp add: engine0_def)
  note t1 = no_precondition_check [OF world0_facts(1), of world1 1]
  note t0 = no_precondition_check [OF world0_facts(1), of world0 7]
  from t1 e have "fst (create_workout_session engine0 1 world1) = Returned" by simp
  moreover from t0 world0_facts(3) fk u
  have "fst (create_workout_session engine0 7 world0) = Raised IntegrityError
        \<and> store (snd (create_workout_session engine0 7 world0)) = store world0"
    by blast
  ultimately show ?thesis
    using world0_facts(1,3) e fk u by simp
qed

section \<open>The claims about the schema\<close>

text \<open>
  C7, as stated, fails. \<open>Exercise.workout_type_id\<close> is declared \<open>Optional[int]\<close>: an
  exercise without a workout type is inserted, also when the engine enforces foreign keys;
  and an engine that does not enforce them inserts an exercise whose workout type does not
  exist.
\<close>

theorem exercise_without_workout_type_counterexample:
  "Exercise.workout_type_id (new_exercise None) = None
   \<and> enforce_fk engine0
   \<and> insert_Exercise engine0 (new_exercise None) (begin_tx db0)
       = Inr ((new_exercise None)\<lparr>Exercise.exercise_id := Some 5\<rparr>,
              step (begin_tx db0)
                (db0\<lparr>tbl_exercise := tbl_exercise db0
                        @ [(new_exercise None)\<lparr>Exercise.exercise_id := Some 5\<rparr>]\<rparr>))
   \<and> tbl_workouttype db0 = []
   \<and> insert_Exercise engine_nofk (new_exercise (Some 42)) (begin_tx db0)
       = Inr ((new_exercise (Some 42))\<lparr>Exercise.exercise_id := Some 5\<rparr>,
              step (begin_tx db0)
                (db0\<lparr>tbl_exercise := tbl_exercise db0
                        @ [(new_exercise (Some 42))\<lparr>Exercise.exercise_id := Some 5\<rparr>]\<rparr>))"
proof -
  have w: "work (begin_tx db0) = db0" "issued (begin_tx db0) = 0"
    by (simp_all add: begin_tx_def)
  have f: "fault_at engine0 = None" "fault_at engine_nofk = None"
    "enforce_fk engine0" "\<not> enforce_fk engine_nofk"
    by (simp_all add: engine0_def engine_nofk_def)
  have n: "Exercise.workout_type_id (new_exercise wt) = wt"
    "Exercise.exercise_id (new_exercise wt) = None" for wt
    by (simp_all add: new_exercise_def)
  have a: "insert_Exercise engine0 (new_exercise None) (begin_tx db0)
       = Inr ((new_exercise None)\<lparr>Exercise.exercise_id := Some 5\<rparr>,
              step (begin_tx db0)
                (db0\<lparr>tbl_exercise := tbl_exercise db0
                        @ [(new_exercise None)\<lparr>Exercise.exercise_id := Some 5\<rparr>]\<rparr>))"
    by (simp add: insert_Exercise_def Let_def faulty_def w f n fk_ok_def assign_pk_def
          db0_keys next_id_values)
  have b: "insert_Exercise engine_nofk (new_exercise (Some 42)) (begin_tx db0)
       = Inr ((new_exercise (Some 42))\<lparr>Exercise.exercise_id := Some 5\<rparr>,
              step (begin_tx db0)
                (db0\<lparr>tbl_exercise := tbl_exercise db0
                        @ [(new_exercise (Some 42))\<lparr>Exercise.exercise_id := Some 5\<rparr>]\<rparr>))"
    by (simp add: insert_Exercise_def Let_def faulty_def w f n fk_ok_def assign_pk_def
          db0_keys next_id_values)
  have "tbl_workouttype db0 = []" by (simp add: db0_def)
  with a b n f show ?thesis by simp
qed

text \<open>
  C7, amended. On an engine that enforces foreign keys and does not fail, an exercise has
  at most one workout type: a new exercise with no workout type is inserted with none;
  inserting an exercise whose \<open>workout_type_id\<close> references no stored workout type fails
  with the engine's integrity error; and the workout type of an inserted exercise, when it
  has one, is a stored one.
\<close>

theorem exercise_workout_type_optional:
  assumes "fault_at eng = None" and "enforce_fk eng"
  shows "(Exercise.workout_type_id e = None \<and> Exercise.exercise_id e = None \<longrightarrow>
            (\<exists>e1 t1. insert_Exercise eng e t = Inr (e1, t1)
                     \<and> Exercise.workout_type_id e1 = None))
       \<and> (\<forall>k. Exercise.workout_type_id e = Some k
               \<and> k \<notin> set (keys WorkoutType.workout_type_id (tbl_workouttype (work t))) \<longrightarrow>
               insert_Exercise eng e t = Inl IntegrityError)
       \<and> (\<forall>e1 t1 k. insert_Exercise eng e t = Inr (e1, t1)
               \<and> Exercise.workout_type_id e1 = Some k \<longrightarrow>
               k \<in> set (keys WorkoutType.workout_type_id (tbl_workouttype (work t))))"
  using assms
  by (auto simp: insert_Exercise_def Let_def fk_ok_def assign_pk_def
           split: if_splits sum.splits option.splits)

theorem exercise_workout_type_optional_witness:
  "fault_at engine0 = None \<and> enforce_fk engine0
   \<and> Exercise.workout_type_id (new_exercise (Some 42)) = Some 42
   \<and> 42 \<notin> set (keys WorkoutType.workout_type_id (tbl_workouttype (work (begin_tx db0))))
   \<and> insert_Exercise engine0 (new_exercise (Some 42)) (begin_tx db0) = Inl IntegrityError"
proof -
  have f: "fault_at engine0 = None" "enforce_fk engine0"
    by (simp_all add: engine0_def)
  have n: "Exercise.workout_type_id (new_exercise (Some 42)) = Some 42"
    by (simp add: new_exercise_def)
  have k: "42 \<notin> set (keys WorkoutType.workout_type_id (tbl_workouttype (work (begin_tx db0))))"
    by (simp add: begin_tx_def db0_keys)
  from exercise_workout_type_optional [OF f, of "new_exercise (Some 42)" "begin_tx db0"] n k
  have "insert_Exercise engine0 (new_exercise (Some 42)) (begin_tx db0) = Inl IntegrityError"
    by blast
  with f n k show ?thesis by simp
qed

text \<open>
  C8, as stated, fails. The schema declares no check on \<open>set_number\<close>: a log row with set
  number 0 is inserted; and an engine that does not enforce foreign keys inserts a log row
  whose session does not exist.
\<close>

theorem log_set_number_counterexample:
  "set_number (log0 1 0) = Some 0
   \<and> enforce_fk engine0
   \<and> insert_ExerciseLog engine0 (log0 1 0) (begin_tx db2)
       = Inr ((log0 1 0)\<lparr>exercise_log_id := Some 1\<rparr>,
              step (begin_tx db2)
                (db2\<lparr>tbl_exerciselog := tbl_exerciselog db2
                        @ [(log0 1 0)\<lparr>exercise_log_id := Some 1\<rparr>]\<rparr>))
   \<and> tbl_workoutsession db0 = []
   \<and> insert_ExerciseLog engine_nofk (log0 99 1) (begin_tx db0)
       = Inr ((log0 99 1)\<lparr>exercise_log_id := Some 1\<rparr>,
              step (begin_tx db0)
                (db0\<lparr>tbl_exerciselog := tbl_exerciselog db0
                        @ [(log0 99 1)\<lparr>exercise_log_id := Some 1\<rparr>]\<rparr>))"
proof -
  have w: "work (begin_tx d) = d" "issued (begin_tx d) = 0" for d
    by (simp_all add: begin_tx_def)
  have f: "fault_at engine0 = None" "fault_at engine_nofk = None"
    "enforce_fk engine0" "\<not> enforce_fk engine_nofk"
    by (simp_all add: engine0_def engine_nofk_def)
  have a: "insert_ExerciseLog engine0 (log0 1 0) (begin_tx db2)
       = Inr ((log0 1 0)\<lparr>exercise_log_id := Some 1\<rparr>,
              step (begin_tx db2)
                (db2\<lparr>tbl_exerciselog := tbl_exerciselog db2
                        @ [(log0 1 0)\<lparr>exercise_log_id := Some 1\<rparr>]\<rparr>))"
    by (simp add: insert_ExerciseLog_def Let_def faulty_def w f log0_fields fk_ok_def
          assign_pk_def db0_keys next_id_values)
  have b: "insert_ExerciseLog engine_nofk (log0 99 1) (begin_tx db0)
       = Inr ((log0 99 1)\<lparr>exercise_log_id := Some 1\<rparr>,
              step (begin_tx db0)
                (db0\<lparr>tbl_exerciselog := tbl_exerciselog db0
                        @ [(log0 99 1)\<lparr>exercise_log_id := Some 1\<rparr>]\<rparr>))"
    by (simp add: insert_ExerciseLog_def Let_def faulty_def w f log0_fields fk_ok_def
          assign_pk_def db0_keys next_id_values)
  have "tbl_workoutsession db0 = []" by (simp add: db0_def)
  with a b f log0_fields show ?thesis by simp
qed

text \<open>
  C8, amended. A call of \<open>create_workout_session\<close> either stores nothing, or stores one
  new session row under a new key together with at least one log row; every log row it
  stores has a set number between 1 and 3, refers to that new session row, and refers to a
  stored exercise row. On an engine that enforces foreign keys and does not fail,
  inserting a log row whose \<open>session_id\<close> references no stored session fails with the
  engine's integrity error.
\<close>

theorem logs_reference_new_session:
  "(create_workout_session eng uid w = (r, w') \<longrightarrow>
      store w' = store w
    \<or> (\<exists>s k logs.
          tbl_workoutsession (store w') = tbl_workoutsession (store w) @ [s]
        \<and> tbl_exerciselog (store w') = tbl_exerciselog (store w) @ logs
        \<and> tbl_exercise (store w') = tbl_exercise (store w)
        \<and> WorkoutSession.session_id s = Some k
        \<and> k \<notin> set (keys WorkoutSession.session_id (tbl_workoutsession (store w)))
        \<and> logs \<noteq> []
        \<and> (\<forall>l\<in>set logs.
               (\<exists>n. set_number l = Some n \<and> 1 \<le> n \<and> n \<le> 3)
             \<and> ExerciseLog.session_id l = Some k
             \<and> ExerciseLog.exercise_id l \<noteq> None
             \<and> (\<exists>e\<in>set (tbl_exercise (store w)).
                   Exercise.exercise_id e = ExerciseLog.exercise_id l))))
   \<and> (fault_at eng = None \<and> enforce_fk eng \<and> ExerciseLog.session_id l0 = Some k0
        \<and> k0 \<notin> set (keys WorkoutSession.session_id (tbl_workoutsession (work t))) \<longrightarrow>
        insert_ExerciseLog eng l0 t = Inl IntegrityError)"
proof (intro conjI impI)
  assume "fault_at eng = None \<and> enforce_fk eng \<and> ExerciseLog.session_id l0 = Some k0
        \<and> k0 \<notin> set (keys WorkoutSession.session_id (tbl_workoutsession (work t)))"
  then show "insert_ExerciseLog eng l0 t = Inl IntegrityError"
    by (simp add: insert_ExerciseLog_def Let_def fk_ok_def)
next
  assume run: "create_workout_session eng uid w = (r, w')"
  let ?exs = "take 3 (tbl_exercise (store w))"
  let ?new = "\<exists>s k logs.
          tbl_workoutsession (store w') = tbl_workoutsession (store w) @ [s]
        \<and> tbl_exerciselog (store w') = tbl_exerciselog (store w) @ logs
        \<and> tbl_exercise (store w') = tbl_exercise (store w)
        \<and> WorkoutSession.session_id s = Some k
        \<and> k \<notin> set (keys WorkoutSession.session_id (tbl_workoutsession (store w)))
        \<and> logs \<noteq> []
        \<and> (\<forall>l\<in>set logs.
               (\<exists>n. set_number l = Some n \<and> 1 \<le> n \<and> n \<le> 3)
             \<and> ExerciseLog.session_id l = Some k
             \<and> ExerciseLog.exercise_id l \<noteq> None
             \<and> (\<exists>e\<in>set (tbl_exercise (store w)).
                   Exercise.exercise_id e = ExerciseLog.exercise_id l))"
  show "store w' = store w \<or> ?new"
  proof (cases r)
    case (Raised err)
    with run have "store w' = store w" by (simp add: cws_Raised)
    then show ?thesis by simp
  next
    case Returned
    from cws_Returned [OF run [unfolded Returned]] show ?thesis
    proof (elim disjE conjE exE)
      assume "store w' = store w"
      then show ?thesis by simp
    next
      fix k ls1
      assume ne: "tbl_exercise (store w) \<noteq> []"
        and fresh: "k \<notin> set (keys WorkoutSession.session_id (tbl_workoutsession (store w)))"
        and st: "store w' = (store w)
                  \<lparr>tbl_workoutsession := tbl_workoutsession (store w)
                       @ [session_row k uid (clk w) (length ?exs)],
                   tbl_exerciselog := tbl_exerciselog (store w) @ ls1\<rparr>"
        and f: "map log_fields ls1 = concat (map (\<lambda>e. map (planned (Some k) e) [1, 2, 3]) ?exs)"
        and nn: "\<forall>l\<in>set ls1. ExerciseLog.exercise_id l \<noteq> None"
      define s where "s = session_row k uid (clk w) (length ?exs)"
      have t1: "tbl_workoutsession (store w') = tbl_workoutsession (store w) @ [s]"
        and t2: "tbl_exerciselog (store w') = tbl_exerciselog (store w) @ ls1"
        and t3: "tbl_exercise (store w') = tbl_exercise (store w)"
        by (simp_all add: st s_def)
      have sid: "WorkoutSession.session_id s = Some k"
        by (simp add: s_def session_row_def)
      from ne have "?exs \<noteq> []" by (cases "tbl_exercise (store w)") simp_all
      then have "map log_fields ls1 \<noteq> []"
        unfolding f by (cases ?exs) simp_all
      then have nonempty: "ls1 \<noteq> []" by simp
      have each: "\<forall>l\<in>set ls1.
               (\<exists>n. set_number l = Some n \<and> 1 \<le> n \<and> n \<le> 3)
             \<and> ExerciseLog.session_id l = Some k
             \<and> ExerciseLog.exercise_id l \<noteq> None
             \<and> (\<exists>e\<in>set (tbl_exercise (store w)).
                   Exercise.exercise_id e = ExerciseLog.exercise_id l)"
      proof
        fix l assume l: "l \<in> set ls1"
        then have "log_fields l \<in> set (map log_fields ls1)" by simp
        then obtain e n where e: "e \<in> set ?exs" and n: "n \<in> {1, 2, 3}"
          and lf: "log_fields l = planned (Some k) e n"
          unfolding f by auto
        from lf have sn: "set_number l = Some n"
          and ls: "ExerciseLog.session_id l = Some k"
          and eid: "ExerciseLog.exercise_id l = Exercise.exercise_id e"
          by (simp_all add: log_fields_def planned_def)
        from e have mem: "e \<in> set (tbl_exercise (store w))"
          by (rule in_set_takeD)
        show "(\<exists>n. set_number l = Some n \<and> 1 \<le> n \<and> n \<le> 3)
             \<and> ExerciseLog.session_id l = Some k
             \<and> ExerciseLog.exercise_id l \<noteq> None
             \<and> (\<exists>e\<in>set (tbl_exercise (store w)).
                   Exercise.exercise_id e = ExerciseLog.exercise_id l)"
        proof (intro conjI)
          show "\<exists>n. set_number l = Some n \<and> 1 \<le> n \<and> n \<le> 3"
            using sn n by auto
          show "ExerciseLog.session_id l = Some k" by (rule ls)
          show "ExerciseLog.exercise_id l \<noteq> None" using nn l by simp
          show "\<exists>e\<in>set (tbl_exercise (store w)). Exercise.exercise_id e = ExerciseLog.exercise_id l"
            using mem eid by (intro bexI [of _ e]) simp_all
        qed
      qed
      from t1 t2 t3 sid fresh nonempty each have ?new
        by (intro exI [of _ s] exI [of _ k] exI [of _ ls1] conjI)
      then show ?thesis ..
    qed
  qed
qed

theorem logs_reference_new_session_witness:
  "create_workout_session engine0 1 world0
     = (Returned, snd (create_workout_session engine0 1 world0))
   \<and> store (snd (create_workout_session engine0 1 world0)) \<noteq> store world0
   \<and> (\<exists>s k. tbl_workoutsession (store (snd (create_workout_session engine0 1 world0))) = [s]
        \<and> WorkoutSession.session_id s = Some k
        \<and> tbl_exerciselog (store (snd (create_workout_session engine0 1 world0))) \<noteq> []
        \<and> (\<forall>l\<in>set (tbl_exerciselog (store (snd (create_workout_session engine0 1 world0)))).
              (\<exists>n. set_number l = Some n \<and> 1 \<le> n \<and> n \<le> 3)
            \<and> ExerciseLog.session_id l = Some k))
   \<and> fault_at engine0 = None \<and> enforce_fk engine0
   \<and> ExerciseLog.session_id (log0 99 1) = Some 99
   \<and> 99 \<notin> set (keys WorkoutSession.session_id (tbl_workoutsession (work (begin_tx db2))))
   \<and> insert_ExerciseLog engine0 (log0 99 1) (begin_tx db2) = Inl IntegrityError"
proof -
  let ?w' = "snd (create_workout_session engine0 1 world0)"
  have f: "fault_at engine0 = None" "enforce_fk engine0"
    by (simp_all add: engine0_def)
  have k: "99 \<notin> set (keys WorkoutSession.session_id (tbl_workoutsession (work (begin_tx db2))))"
    by (simp add: begin_tx_def db0_keys)
  have empty: "tbl_exerciselog (store world0) = []" "tbl_workoutsession (store world0) = []"
    by (simp_all add: world0_def db0_def)
  have changed: "store ?w' \<noteq> store world0"
    using run0_logs empty by auto
  note t = logs_reference_new_session [of engine0 1 world0 Returned ?w' "log0 99 1" 99 "begin_tx db2"]
  from t run0_pair changed obtain s k0 logs where
    new: "tbl_workoutsession (store ?w') = tbl_workoutsession (store world0) @ [s]"
      "tbl_exerciselog (store ?w') = tbl_exerciselog (store world0) @ logs"
      "WorkoutSession.session_id s = Some k0"
      "\<forall>l\<in>set logs. (\<exists>n. set_number l = Some n \<and> 1 \<le> n \<and> n \<le> 3)
             \<and> ExerciseLog.session_id l = Some k0
             \<and> ExerciseLog.exercise_id l \<noteq> None
             \<and> (\<exists>e\<in>set (tbl_exercise (store world0)).
                   Exercise.exercise_id e = ExerciseLog.exercise_id l)"
    by blast
  have a: "\<exists>s k. tbl_workoutsession (store ?w') = [s]
        \<and> WorkoutSession.session_id s = Some k
        \<and> tbl_exerciselog (store ?w') \<noteq> []
        \<and> (\<forall>l\<in>set (tbl_exerciselog (store ?w')).
              (\<exists>n. set_number l = Some n \<and> 1 \<le> n \<and> n \<le> 3)
            \<and> ExerciseLog.session_id l = Some k)"
    using new run0_logs unfolding empty
    by (intro exI [of _ s] exI [of _ k0]) simp
  from t f k log0_fields(2) [of 99 1]
  have b: "insert_ExerciseLog engine0 (log0 99 1) (begin_tx db2) = Inl IntegrityError"
    by blast
  from run0_pair changed a f k log0_fields(2) [of 99 1] b show ?thesis
    by (intro conjI)
qed

end
